theory Spec2Isabelle
  imports Main "HOL-Library.Sublist"
begin

section \<open>JavaScript values shared by the services\<close>

text \<open>
  Strings are lists of characters; a character stands for a code unit below 256.
  A thrown \<^verbatim>\<open>Error\<close> object is a name and a message; \<open>error_toString\<close> is what
  a template literal \<^verbatim>\<open>`${error}`\<close> prints (\<^verbatim>\<open>Error.prototype.toString\<close>).
\<close>

datatype js_error = JsError (err_name: string) (err_message: string)

definition Error :: "string \<Rightarrow> js_error" where
  "Error m = JsError ''Error'' m"

fun error_toString :: "js_error \<Rightarrow> string" where
  "error_toString (JsError n m) =
     (if m = [] then n else if n = [] then m else n @ '': '' @ m)"

text \<open>Truthiness of a string value that may be \<^verbatim>\<open>undefined\<close>: absent and empty are false.\<close>

fun truthy :: "string option \<Rightarrow> bool" where
  "truthy None = False"
| "truthy (Some s) = (s \<noteq> [])"

text \<open>\<^verbatim>\<open>String.prototype.includes\<close>: the argument occurs as a contiguous run.\<close>

fun str_includes :: "string \<Rightarrow> string \<Rightarrow> bool" where
  "str_includes [] sub = (sub = [])"
| "str_includes (c # cs) sub = (prefix sub (c # cs) \<or> str_includes cs sub)"

text \<open>
  \<^verbatim>\<open>String.prototype.trim\<close> on code units below 256: tab, line feed, vertical tab, form
  feed, carriage return, space and no-break space are white space.
\<close>

definition is_space :: "char \<Rightarrow> bool" where
  "is_space c = ((of_char c :: nat) \<in> {9, 10, 11, 12, 13, 32, 160})"

definition trim :: "string \<Rightarrow> string" where
  "trim s = rev (dropWhile is_space (rev (dropWhile is_space s)))"

text \<open>Decimal printing of a number, as a template literal prints an integer.\<close>

definition digit_char :: "nat \<Rightarrow> char" where
  "digit_char d = ''0123456789'' ! d"

fun show_nat :: "nat \<Rightarrow> string" where
  "show_nat n = (if n < 10 then [digit_char n] else show_nat (n div 10) @ [digit_char (n mod 10)])"

declare show_nat.simps [simp del]

definition show_int :: "int \<Rightarrow> string" where
  "show_int i = (if i < 0 then CHR ''-'' # show_nat (nat (- i)) else show_nat (nat i))"

text \<open>An exit code as Node reports it: a number, or \<^verbatim>\<open>null\<close> when a signal ended the process.\<close>

fun show_code :: "int option \<Rightarrow> string" where
  "show_code None = ''null''"
| "show_code (Some c) = show_int c"

text \<open>\<^verbatim>\<open>Array.prototype.join\<close> and \<^verbatim>\<open>String.prototype.split\<close> on a one-character separator.\<close>

fun join :: "string \<Rightarrow> string list \<Rightarrow> string" where
  "join sep [] = []"
| "join sep [x] = x"
| "join sep (x # y # ys) = x @ sep @ join sep (y # ys)"

fun split :: "char \<Rightarrow> string \<Rightarrow> string list" where
  "split sep [] = [[]]"
| "split sep (c # cs) =
     (if c = sep then [] # split sep cs
      else (case split sep cs of [] \<Rightarrow> [[c]] | w # ws \<Rightarrow> (c # w) # ws))"

section \<open>FileService\<close>

text \<open>
  The file system, without symbolic links and with every entry accessible: the entries by
  their canonical path (the names from the root down), each a file or a directory, and the
  working directory. The root is a directory and is always there. An entry counts only if
  the walk below reaches it.
\<close>

datatype kind = File | Directory

record fs =
  entries :: "(string list \<times> kind) list"
  cwd :: "string list"

definition lookup :: "fs \<Rightarrow> string list \<Rightarrow> kind option" where
  "lookup fs q = (if q = [] then Some Directory else map_of (entries fs) q)"

text \<open>
  Path resolution as the operating system does it, one component at a time from the root
  (a path that starts with a slash) or from the working directory: the place reached so
  far must be a directory; an empty component (a doubled or trailing slash) and \<^verbatim>\<open>.\<close> stay
  there, \<^verbatim>\<open>..\<close> goes to the parent (the root is its own parent), a name goes to the entry
  of that name if there is one. The empty path resolves to nothing.
\<close>

definition step :: "fs \<Rightarrow> string list \<Rightarrow> string \<Rightarrow> string list option" where
  "step fs cur name =
     (if lookup fs cur \<noteq> Some Directory then None
      else if name = [] \<or> name = ''.'' then Some cur
      else if name = ''..'' then Some (butlast cur)
      else if lookup fs (cur @ [name]) = None then None
      else Some (cur @ [name]))"

fun walk :: "fs \<Rightarrow> string list \<Rightarrow> string list \<Rightarrow> string list option" where
  "walk fs cur [] = Some cur"
| "walk fs cur (name # names) =
     (case step fs cur name of None \<Rightarrow> None | Some next \<Rightarrow> walk fs next names)"

definition resolve :: "fs \<Rightarrow> string \<Rightarrow> string list option" where
  "resolve fs p =
     (if p = [] then None
      else walk fs (if hd p = CHR ''/'' then [] else cwd fs) (split CHR ''/'' p))"

text \<open>
  \<^verbatim>\<open>fs.pathExists\<close> says whether the path resolves. \<^verbatim>\<open>fs.remove\<close> deletes the entry the path
  resolves to and everything below it, and does nothing to a path that does not resolve;
  on the root it empties the root.
\<close>

definition pathExists :: "fs \<Rightarrow> string \<Rightarrow> bool" where
  "pathExists fs p = (resolve fs p \<noteq> None)"

definition remove :: "fs \<Rightarrow> string \<Rightarrow> fs" where
  "remove fs p =
     (case resolve fs p of
        None \<Rightarrow> fs
      | Some r \<Rightarrow> fs\<lparr>entries := filter (\<lambda>(q, k). \<not> prefix r q) (entries fs)\<rparr>)"

text \<open>
  \<^verbatim>\<open>path.basename\<close> (POSIX): trailing slashes are dropped, then the characters after the
  last remaining slash are the name.
\<close>

definition basename :: "string \<Rightarrow> string" where
  "basename p = rev (takeWhile (\<lambda>c. c \<noteq> CHR ''/'') (dropWhile (\<lambda>c. c = CHR ''/'') (rev p)))"

definition protectedFiles :: "string list" where
  "protectedFiles =
     [''package.json'', ''package-lock.json'', ''yarn.lock'', ''index.js'', ''main.js'',
      ''app.js'', ''server.js'', ''bot.js'', ''config.js'', ''command.js'']"

text \<open>\<^verbatim>\<open>FileService.deleteFile\<close>: the outcome and the file system afterwards.\<close>

definition deleteFile :: "fs \<Rightarrow> string \<Rightarrow> (js_error + unit) \<times> fs" where
  "deleteFile fs filePath =
     (let fileName = basename filePath;
          isRootMovedFile = str_includes filePath ''.root_moved''
      in if \<not> isRootMovedFile \<and> fileName \<in> set protectedFiles
         then (Inl (Error (''Cannot delete protected file: '' @ fileName)), fs)
         else if pathExists fs filePath then (Inr (), remove fs filePath)
         else (Inr (), fs))"

section \<open>ProcessService\<close>

text \<open>\<^verbatim>\<open>a || b\<close> on a string that may be \<^verbatim>\<open>undefined\<close>.\<close>

fun or_else :: "string option \<Rightarrow> string \<Rightarrow> string" where
  "or_else None d = d"
| "or_else (Some s) d = (if s = [] then d else s)"

text \<open>
  What \<open>startProcess\<close> reads of \<^verbatim>\<open>package.json\<close>: the value of \<^verbatim>\<open>scripts.start\<close>
  (absent when \<^verbatim>\<open>scripts\<close> is missing) and the value of \<^verbatim>\<open>main\<close>, both strings. The
  file is missing, or reading it throws (\<^verbatim>\<open>fs.readJson\<close> on text that is not JSON, or
  the first property access on a parsed \<^verbatim>\<open>null\<close>), or it is read.
\<close>

record manifest =
  scripts_start :: "string option"
  main :: "string option"

datatype manifest_state = NoManifest | Unreadable js_error | Manifest manifest

text \<open>
  The directory a process runs in: the server's root path, or its \<^verbatim>\<open>.root_moved\<close>
  subdirectory (\<^verbatim>\<open>path.join(rootPath, ".root_moved")\<close>).
\<close>

datatype run_dir = Root string | RootMoved string

text \<open>A \<^verbatim>\<open>ChildProcess\<close> object is known by the order in which it was spawned.\<close>

type_synonym child = nat

datatype effect =
    Log string
  | SpawnInstall child run_dir
  | SpawnChild child string "string list" run_dir "(string \<times> string) list"
  | Kill child

text \<open>The event that settles the promise around \<^verbatim>\<open>npm install\<close>.\<close>

datatype install_end = Closed "int option" | Errored js_error

text \<open>
  What the world outside does during one start request: whether the root path exists
  (the start handler asks), the listing of the root path and of \<^verbatim>\<open>.root_moved\<close> when that
  exists (\<^verbatim>\<open>fs.readdir\<close> may throw), the manifest of the directory the process will run in,
  the chunks \<^verbatim>\<open>npm install\<close> writes to stdout and stderr and how it ends, whether
  \<^verbatim>\<open>spawn\<close> throws, and the clock (\<^verbatim>\<open>Date.now()\<close>, milliseconds).
\<close>

record start_env =
  root_exists :: bool
  root_dir :: "js_error + string list"
  root_moved :: "(js_error + string list) option"
  packageJson :: manifest_state
  install_output :: "string list"
  install_end :: install_end
  spawn_error :: "js_error option"
  now :: nat

text \<open>
  The service's state is the map \<^verbatim>\<open>processes\<close>; \<open>spawned\<close> counts the child processes
  created so far, so the next \<^verbatim>\<open>ChildProcess\<close> object is a new one.
\<close>

record proc_world =
  processes :: "string \<rightharpoonup> child"
  spawned :: nat

text \<open>Lines 424 to 440: which directory is listed and run in.\<close>

definition scanProject ::
  "start_env \<Rightarrow> string \<Rightarrow> (js_error + (string list \<times> run_dir)) \<times> effect list" where
  "scanProject env rootPath =
     (case root_moved env of
        Some listing \<Rightarrow>
          (case listing of
             Inl e \<Rightarrow> (Inl e, [])
           | Inr files \<Rightarrow>
               (Inr (files, RootMoved rootPath),
                [Log (''Found files in .root_moved directory: '' @ join '', '' files)]))
      | None \<Rightarrow>
          (case root_dir env of
             Inl e \<Rightarrow> (Inl e, [])
           | Inr files \<Rightarrow>
               (Inr (files, Root rootPath),
                [Log (''Found files in root directory: '' @ join '', '' files)])))"

text \<open>Lines 442 to 480: the start command.\<close>

definition commonEntries :: "string list" where
  "commonEntries = [''index.js'', ''main.js'', ''app.js'', ''server.js'', ''bot.js'']"

definition fallbackEntry :: "string list \<Rightarrow> string option" where
  "fallbackEntry files = List.find (\<lambda>file. file \<in> set files) commonEntries"

definition noEntryManifest :: string where
  "noEntryManifest =
     ''No valid entry point found. Please ensure your project has a main file or start script.''"

definition noEntryPlain :: string where
  "noEntryPlain =
     ''No valid entry point found. Please ensure you have index.js, main.js, app.js, server.js, or bot.js in your project.''"

definition resolveEntry ::
  "string list \<Rightarrow> manifest_state \<Rightarrow> (js_error + string) \<times> effect list" where
  "resolveEntry files pj =
     (case pj of
        Manifest m \<Rightarrow>
          (let found = Log (''Found package.json with main: '' @ or_else (main m) ''not specified'');
               fallback =
                 (case fallbackEntry files of
                    Some entryFile \<Rightarrow>
                      (Inr (''node '' @ entryFile),
                       [found, Log (''Using fallback entry file: '' @ entryFile)])
                  | None \<Rightarrow> (Inl (Error noEntryManifest), [found]))
           in if truthy (scripts_start m)
              then (Inr ''npm start'', [found, Log ''Using npm start script from package.json''])
              else (case main m of
                      Some f \<Rightarrow>
                        if f \<noteq> [] \<and> f \<in> set files
                        then (Inr (''node '' @ f),
                              [found, Log (''Using main entry from package.json: '' @ f)])
                        else fallback
                    | None \<Rightarrow> fallback))
      | Unreadable e \<Rightarrow> (Inl e, [])
      | NoManifest \<Rightarrow>
          (let looking = Log ''No package.json found, looking for common entry points''
           in case fallbackEntry files of
                Some entryFile \<Rightarrow>
                  (Inr (''node '' @ entryFile), [looking, Log (''Using entry file: '' @ entryFile)])
              | None \<Rightarrow> (Inl (Error noEntryPlain), [looking])))"

text \<open>Lines 482 to 512: \<^verbatim>\<open>npm install\<close>, when the manifest exists.\<close>

definition installDependencies ::
  "start_env \<Rightarrow> run_dir \<Rightarrow> proc_world \<Rightarrow> (js_error + unit) \<times> proc_world \<times> effect list" where
  "installDependencies env actualRootPath w =
     (let checking = Log ''Checking for package.json and dependencies...''
      in if packageJson env = NoManifest then (Inr (), w, [checking])
         else
           (let w' = w\<lparr>spawned := Suc (spawned w)\<rparr>;
                t = [checking, Log ''Running npm install...'', SpawnInstall (spawned w) actualRootPath]
                    @ map (\<lambda>data. Log (''[npm] '' @ trim data)) (install_output env)
            in case install_end env of
                 Closed code \<Rightarrow>
                   if code = Some 0 then (Inr (), w', t)
                   else (Inl (Error (''npm install failed with code '' @ show_code code)), w', t)
               | Errored e \<Rightarrow> (Inl e, w', t)))"

text \<open>Lines 514 to 548: the spawn, the handle id and the registration.\<close>

definition launch ::
  "start_env \<Rightarrow> string \<Rightarrow> string \<Rightarrow> run_dir \<Rightarrow> (string \<times> string) list \<Rightarrow> proc_world
     \<Rightarrow> (js_error + string) \<times> proc_world \<times> effect list" where
  "launch env serverId startScript actualRootPath envVars w =
     (let starting = Log (''Starting process: '' @ startScript);
          scriptParts = split CHR '' '' startScript;
          command = hd scriptParts;
          args = tl scriptParts
      in case spawn_error env of
           Some e \<Rightarrow> (Inl e, w, [starting])
         | None \<Rightarrow>
             (let childProcess = spawned w;
                  handle = serverId @ ''-'' @ show_nat (now env)
              in (Inr handle,
                  w\<lparr>processes := (processes w)(handle \<mapsto> childProcess),
                    spawned := Suc (spawned w)\<rparr>,
                  [starting, SpawnChild childProcess command args actualRootPath envVars])))"

text \<open>The body of the \<^verbatim>\<open>try\<close> block, then the \<^verbatim>\<open>catch\<close> that rewraps what was thrown.\<close>

definition startProcess_try ::
  "start_env \<Rightarrow> string \<Rightarrow> string \<Rightarrow> (string \<times> string) list \<Rightarrow> proc_world
     \<Rightarrow> (js_error + string) \<times> proc_world \<times> effect list" where
  "startProcess_try env serverId rootPath envVars w =
     (let t0 = [Log ''Analyzing project structure...'']
      in case scanProject env rootPath of
           (Inl e, t1) \<Rightarrow> (Inl e, w, t0 @ t1)
         | (Inr (files, actualRootPath), t1) \<Rightarrow>
             (case resolveEntry files (packageJson env) of
                (Inl e, t2) \<Rightarrow> (Inl e, w, t0 @ t1 @ t2)
              | (Inr startScript, t2) \<Rightarrow>
                  (case installDependencies env actualRootPath w of
                     (Inl e, w1, t3) \<Rightarrow> (Inl e, w1, t0 @ t1 @ t2 @ t3)
                   | (Inr u, w1, t3) \<Rightarrow>
                       (case launch env serverId startScript actualRootPath envVars w1 of
                          (r, w2, t4) \<Rightarrow> (r, w2, t0 @ t1 @ t2 @ t3 @ t4)))))"

definition startProcess ::
  "start_env \<Rightarrow> string \<Rightarrow> string \<Rightarrow> (string \<times> string) list \<Rightarrow> proc_world
     \<Rightarrow> (js_error + string) \<times> proc_world \<times> effect list" where
  "startProcess env serverId rootPath envVars w =
     (case startProcess_try env serverId rootPath envVars w of
        (Inl e, w', t) \<Rightarrow> (Inl (Error (''Failed to start process: '' @ error_toString e)), w', t)
      | (Inr handle, w', t) \<Rightarrow> (Inr handle, w', t))"

text \<open>
  The listeners \<open>startProcess\<close> leaves on the child it spawned. Each closes over the handle
  id of its own call.
\<close>

datatype child_event =
    StdoutData string
  | StderrData string
  | Close "int option"
  | ProcessError js_error

fun on_child_event :: "string \<Rightarrow> child_event \<Rightarrow> proc_world \<Rightarrow> proc_world \<times> effect list" where
  "on_child_event handle (StdoutData d) w = (w, [Log (''[stdout] '' @ trim d)])"
| "on_child_event handle (StderrData d) w = (w, [Log (''[stderr] '' @ trim d)])"
| "on_child_event handle (Close code) w =
     (w\<lparr>processes := (processes w)(handle := None)\<rparr>,
      [Log (''Process exited with code '' @ show_code code)])"
| "on_child_event handle (ProcessError e) w =
     (w\<lparr>processes := (processes w)(handle := None)\<rparr>,
      [Log (''Process error: '' @ err_message e)])"

text \<open>\<^verbatim>\<open>stopProcess\<close>: a \<^verbatim>\<open>ChildProcess\<close> object is always truthy, \<^verbatim>\<open>kill()\<close> sends SIGTERM.\<close>

definition stopProcess ::
  "string \<Rightarrow> proc_world \<Rightarrow> (js_error + unit) \<times> proc_world \<times> effect list" where
  "stopProcess handle w =
     (case processes w handle of
        Some process \<Rightarrow> (Inr (), w\<lparr>processes := (processes w)(handle := None)\<rparr>, [Kill process])
      | None \<Rightarrow> (Inr (), w, []))"

text \<open>The service over time: calls and child events, one after the other.\<close>

datatype proc_op =
    Start start_env string string "(string \<times> string) list"
  | Stop string
  | ChildEvent string child_event

fun proc_step :: "proc_op \<Rightarrow> proc_world \<Rightarrow> proc_world" where
  "proc_step (Start env serverId rootPath envVars) w =
     fst (snd (startProcess env serverId rootPath envVars w))"
| "proc_step (Stop handle) w = fst (snd (stopProcess handle w))"
| "proc_step (ChildEvent handle ev) w = fst (on_child_event handle ev w)"

definition proc_init :: proc_world where
  "proc_init = \<lparr>processes = Map.empty, spawned = 0\<rparr>"

definition proc_run :: "proc_op list \<Rightarrow> proc_world" where
  "proc_run ops = foldl (\<lambda>w op. proc_step op w) proc_init ops"

text \<open>Which effects create a process.\<close>

fun is_SpawnChild :: "effect \<Rightarrow> bool" where
  "is_SpawnChild (SpawnChild c cmd args dir ev) = True"
| "is_SpawnChild e = False"

fun is_SpawnInstall :: "effect \<Rightarrow> bool" where
  "is_SpawnInstall (SpawnInstall c dir) = True"
| "is_SpawnInstall e = False"

text \<open>
  The registry is sound when two handle ids never hold the same child and every child in
  it was spawned.
\<close>

definition registry_ok :: "proc_world \<Rightarrow> bool" where
  "registry_ok w =
     (inj_on (processes w) (dom (processes w)) \<and>
      (\<forall>h c. processes w h = Some c \<longrightarrow> c < spawned w))"

text \<open>The children a trace spawns for the project, and the lines it sends to the log sink.\<close>

fun children_of :: "effect list \<Rightarrow> child list" where
  "children_of [] = []"
| "children_of (SpawnChild c cmd args dir ev # es) = c # children_of es"
| "children_of (e # es) = children_of es"

fun logs_of :: "effect list \<Rightarrow> string list" where
  "logs_of [] = []"
| "logs_of (Log m # es) = m # logs_of es"
| "logs_of (e # es) = logs_of es"

section \<open>The log sink\<close>

text \<open>
  \<^verbatim>\<open>JSON.stringify\<close> on strings and on an object whose values are strings: a quote, a
  backslash and the control characters are escaped, everything else is copied.
\<close>

definition dquote :: char where
  "dquote = CHR 0x22"

definition backslash :: char where
  "backslash = CHR 0x5C"

definition hex_digit :: "nat \<Rightarrow> char" where
  "hex_digit n = ''0123456789abcdef'' ! n"

definition json_escape :: "char \<Rightarrow> string" where
  "json_escape c =
     (let n = (of_char c :: nat)
      in if c = dquote then [backslash, dquote]
         else if c = backslash then [backslash, backslash]
         else if n = 8 then [backslash, CHR ''b'']
         else if n = 9 then [backslash, CHR ''t'']
         else if n = 10 then [backslash, CHR ''n'']
         else if n = 12 then [backslash, CHR ''f'']
         else if n = 13 then [backslash, CHR ''r'']
         else if n < 32 then [backslash, CHR ''u'', CHR ''0'', CHR ''0'',
                              hex_digit (n div 16), hex_digit (n mod 16)]
         else [c])"

definition json_quote :: "string \<Rightarrow> string" where
  "json_quote s = dquote # concat (map json_escape s) @ [dquote]"

definition JSON_stringify :: "(string \<times> string) list \<Rightarrow> string" where
  "JSON_stringify props =
     ''{'' @ join '','' (map (\<lambda>(k, v). json_quote k @ '':'' @ json_quote v) props) @ ''}''"

text \<open>
  A connection is known by the order in which it was accepted. The sink is the map
  \<^verbatim>\<open>serverConnections\<close> (a \<^verbatim>\<open>Set\<close> keeps insertion order and has no duplicates), each
  connection's \<^verbatim>\<open>readyState\<close>, and the server id each close listener closed over.
\<close>

datatype ready_state = CONNECTING | OPEN | CLOSING | CLOSED

type_synonym ws = nat

record sink =
  serverConnections :: "string \<rightharpoonup> ws list"
  readyState :: "ws \<Rightarrow> ready_state"
  close_listener :: "ws \<rightharpoonup> string"
  accepted :: nat

definition set_add :: "ws list \<Rightarrow> ws \<Rightarrow> ws list" where
  "set_add xs x = (if x \<in> set xs then xs else xs @ [x])"

definition set_delete :: "ws list \<Rightarrow> ws \<Rightarrow> ws list" where
  "set_delete xs x = filter (\<lambda>y. y \<noteq> x) xs"

text \<open>
  Lines 30 to 44: a new connection, OPEN when the server hands it over, with the
  \<^verbatim>\<open>serverId\<close> of its URL if it has one.
\<close>

definition on_connection :: "string option \<Rightarrow> sink \<Rightarrow> sink" where
  "on_connection serverId s =
     (let ws = accepted s;
          s1 = s\<lparr>readyState := (readyState s)(ws := OPEN), accepted := Suc ws\<rparr>
      in case serverId of
           None \<Rightarrow> s1
         | Some sid \<Rightarrow>
             if sid = [] then s1
             else s1\<lparr>serverConnections :=
                        (serverConnections s)(sid \<mapsto>
                          set_add (case serverConnections s sid of None \<Rightarrow> [] | Some c \<Rightarrow> c) ws),
                      close_listener := (close_listener s)(ws \<mapsto> sid)\<rparr>)"

text \<open>
  The close event of a connection, whose \<^verbatim>\<open>readyState\<close> is CLOSED by then: its listener, if
  it has one, deletes it from its set.
\<close>

definition on_ws_close :: "ws \<Rightarrow> sink \<Rightarrow> sink" where
  "on_ws_close ws s =
     (let s1 = s\<lparr>readyState := (readyState s)(ws := CLOSED)\<rparr>
      in case close_listener s ws of
           None \<Rightarrow> s1
         | Some sid \<Rightarrow>
             (case serverConnections s sid of
                None \<Rightarrow> s1
              | Some c \<Rightarrow> s1\<lparr>serverConnections := (serverConnections s)(sid \<mapsto> set_delete c ws)\<rparr>))"

text \<open>
  Lines 47 to 62. \<open>timestamp\<close> is what \<^verbatim>\<open>new Date().toISOString()\<close> returns at the call. The
  result is the sink afterwards and the \<^verbatim>\<open>ws.send\<close> calls made, in order.
\<close>

definition log_envelope :: "string \<Rightarrow> string \<Rightarrow> string" where
  "log_envelope timestamp message =
     JSON_stringify [(''type'', ''log''), (''timestamp'', timestamp), (''message'', message)]"

definition broadcastLog :: "string \<Rightarrow> string \<Rightarrow> string \<Rightarrow> sink \<Rightarrow> sink \<times> (ws \<times> string) list" where
  "broadcastLog timestamp serverId message s =
     (case serverConnections s serverId of
        None \<Rightarrow> (s, [])
      | Some connections \<Rightarrow>
          (let logMessage = log_envelope timestamp message
           in (s, map (\<lambda>ws. (ws, logMessage))
                      (filter (\<lambda>ws. readyState s ws = OPEN) connections))))"

text \<open>The sink over time: connections, transport state changes, close events, broadcasts.\<close>

datatype sink_event =
    Connection "string option"
  | Transport ws ready_state
  | WsClose ws
  | Broadcast string string string

fun sink_step :: "sink_event \<Rightarrow> sink \<Rightarrow> sink" where
  "sink_step (Connection serverId) s = on_connection serverId s"
| "sink_step (Transport ws st) s = s\<lparr>readyState := (readyState s)(ws := st)\<rparr>"
| "sink_step (WsClose ws) s = on_ws_close ws s"
| "sink_step (Broadcast timestamp serverId message) s = fst (broadcastLog timestamp serverId message s)"

definition sink_init :: sink where
  "sink_init =
     \<lparr>serverConnections = Map.empty, readyState = (\<lambda>ws. CONNECTING),
      close_listener = Map.empty, accepted = 0\<rparr>"

definition sink_run :: "sink_event list \<Rightarrow> sink" where
  "sink_run evs = foldl (\<lambda>s ev. sink_step ev s) sink_init evs"

text \<open>
  Every connection in a set was accepted, is there once, and its close listener holds the
  id of that very set.
\<close>

definition sink_ok :: "sink \<Rightarrow> bool" where
  "sink_ok s =
     (\<forall>sid conns. serverConnections s sid = Some conns \<longrightarrow>
        distinct conns \<and> (\<forall>c \<in> set conns. c < accepted s \<and> close_listener s c = Some sid))"

section \<open>Storage and the HTTP handlers\<close>

text \<open>A row of the \<^verbatim>\<open>servers\<close> table; the table is the list of its rows.\<close>

record server =
  srv_id :: string
  srv_name :: string
  srv_status :: string
  srv_userId :: string
  srv_processId :: "string option"
  srv_rootPath :: string
  srv_envVars :: "(string \<times> string) list"
  srv_createdAt :: nat

definition getServer :: "server list \<Rightarrow> string \<Rightarrow> server option" where
  "getServer rows ident = List.find (\<lambda>r. srv_id r = ident) rows"

definition getServersByUserId :: "server list \<Rightarrow> string \<Rightarrow> server list" where
  "getServersByUserId rows uid = filter (\<lambda>r. srv_userId r = uid) rows"

text \<open>\<^verbatim>\<open>updateServer(id, {processId, status})\<close>, the update both handlers below make.\<close>

definition updateServer :: "server list \<Rightarrow> string \<Rightarrow> string option \<Rightarrow> string \<Rightarrow> server list" where
  "updateServer rows ident pid st =
     map (\<lambda>r. if srv_id r = ident then r\<lparr>srv_processId := pid, srv_status := st\<rparr> else r) rows"

text \<open>
  The body of a creation request as the schema reads it; the schema accepts a name of 1
  to 50 characters. \<^verbatim>\<open>createServer\<close> fills in the defaults.
\<close>

record create_body =
  body_name :: "string option"
  body_status :: "string option"
  body_envVars :: "(string \<times> string) list option"

text \<open>
  What the world outside gives one creation request: the clock and the random suffix of
  the directory name, the id and the creation time the database assigns, and the error
  the schema throws on a body it rejects.
\<close>

record create_env =
  serversRoot :: string
  dir_now :: nat
  dir_random :: string
  new_id :: string
  db_now :: nat
  zod_error :: js_error

text \<open>
  The application's state: the table, the process service, and the paths
  \<^verbatim>\<open>fs.ensureDir\<close> was called on for new servers, in order.
\<close>

record app =
  servers :: "server list"
  procs :: proc_world
  dirs :: "string list"

datatype app_effect = BroadcastLog string string | Proc effect

datatype body =
    Message string
  | MessageError string string
  | Success
  | SuccessProcess string
  | ServerJson server

datatype response = Response nat body

text \<open>\<^verbatim>\<open>FileService.createServerDirectory\<close>: the new path, and the paths ensured afterwards.\<close>

definition createServerDirectory :: "create_env \<Rightarrow> string list \<Rightarrow> string \<times> string list" where
  "createServerDirectory env ds =
     (let serverId = ''server-'' @ show_nat (dir_now env) @ ''-'' @ dir_random env;
          serverPath = serversRoot env @ ''/'' @ serverId
      in (serverPath, ds @ [serverPath]))"

definition createServer ::
  "create_env \<Rightarrow> string \<Rightarrow> string \<Rightarrow> string \<Rightarrow> create_body \<Rightarrow> server" where
  "createServer env name uid serverPath b =
     \<lparr>srv_id = new_id env, srv_name = name, srv_status = or_else (body_status b) ''stopped'',
      srv_userId = uid, srv_processId = None, srv_rootPath = serverPath,
      srv_envVars = (case body_envVars b of None \<Rightarrow> [] | Some e \<Rightarrow> e),
      srv_createdAt = db_now env\<rparr>"

definition limitReached :: response where
  "limitReached = Response 400 (Message ''Server limit reached (maximum 3 servers)'')"

definition notAuthenticated :: response where
  "notAuthenticated = Response 401 (Message ''Not authenticated'')"

definition notFound :: response where
  "notFound = Response 404 (Message ''Server not found'')"

text \<open>Lines 133 to 164, behind \<^verbatim>\<open>requireAuth\<close> (lines 116 to 121).\<close>

definition create_handler ::
  "create_env \<Rightarrow> string option \<Rightarrow> create_body \<Rightarrow> app \<Rightarrow> response \<times> app \<times> app_effect list" where
  "create_handler env session b a =
     (case session of
        None \<Rightarrow> (notAuthenticated, a, [])
      | Some uid \<Rightarrow>
          if uid = [] then (notAuthenticated, a, [])
          else
            (let existingServers = getServersByUserId (servers a) uid
             in if length existingServers \<ge> 3 then (limitReached, a, [])
                else
                  (case createServerDirectory env (dirs a) of
                     (serverPath, ds) \<Rightarrow>
                       (case body_name b of
                          None \<Rightarrow>
                            (Response 500 (MessageError ''Failed to create server''
                                             (err_message (zod_error env))),
                             a\<lparr>dirs := ds\<rparr>, [])
                        | Some name \<Rightarrow>
                            if 1 \<le> length name \<and> length name \<le> 50
                            then
                              (let row = createServer env name uid serverPath b
                               in (Response 200 (ServerJson row),
                                   a\<lparr>servers := servers a @ [row], dirs := ds\<rparr>,
                                   [BroadcastLog (srv_id row)
                                      (''Server '' @ srv_name row @ '' created successfully'')]))
                            else
                              (Response 500 (MessageError ''Failed to create server''
                                               (err_message (zod_error env))),
                               a\<lparr>dirs := ds\<rparr>, [])))))"

text \<open>Creation requests one after the other, each with its own session and body.\<close>

fun create_run :: "(create_env \<times> string option \<times> create_body) list \<Rightarrow> app \<Rightarrow> app" where
  "create_run [] a = a"
| "create_run ((env, session, b) # reqs) a =
     create_run reqs (fst (snd (create_handler env session b a)))"

text \<open>
  The log callback the start handler passes to \<open>startProcess\<close> is
  \<^verbatim>\<open>broadcastLog(server.id, log)\<close>.
\<close>

fun forward :: "string \<Rightarrow> effect \<Rightarrow> app_effect" where
  "forward sid (Log m) = BroadcastLog sid m"
| "forward sid e = Proc e"

text \<open>Lines 340 to 351: the \<^verbatim>\<open>catch\<close> of the start handler.\<close>

definition start_failed ::
  "string \<Rightarrow> js_error \<Rightarrow> app \<Rightarrow> app_effect list \<Rightarrow> response \<times> app \<times> app_effect list" where
  "start_failed ident e a t =
     (Response 500 (Message (err_message e)),
      a\<lparr>servers := updateServer (servers a) ident None ''stopped''\<rparr>,
      t @ [BroadcastLog ident (''Start failed: '' @ err_message e)])"

text \<open>Lines 293 to 352, behind \<^verbatim>\<open>requireAuth\<close>.\<close>

definition start_handler ::
  "start_env \<Rightarrow> string option \<Rightarrow> string \<Rightarrow> app \<Rightarrow> response \<times> app \<times> app_effect list" where
  "start_handler env session ident a =
     (if \<not> truthy session then (notAuthenticated, a, [])
      else
        (case getServer (servers a) ident of
           None \<Rightarrow> (notFound, a, [])
         | Some server \<Rightarrow>
             if Some (srv_userId server) \<noteq> session then (notFound, a, [])
             else if \<not> root_exists env
             then (Response 400
                     (Message ''Server directory not found. Please upload your bot files first.''),
                   a,
                   [BroadcastLog (srv_id server)
                      ''Error: Server directory not found. Please upload your bot files first.''])
             else
               (case (case root_moved env of Some listing \<Rightarrow> listing | None \<Rightarrow> root_dir env) of
                  Inl e \<Rightarrow> start_failed ident e a []
                | Inr files \<Rightarrow>
                    if files = [] \<and> root_moved env \<noteq> None
                    then (Response 400
                            (Message ''No files found in root moved directory. Please move your bot files to root first.''),
                          a,
                          [BroadcastLog (srv_id server)
                             ''Error: No files found in root moved directory. Please move your bot files to root first.''])
                    else if files = []
                    then (Response 400
                            (Message ''No files found in server directory. Please upload your bot files first.''),
                          a,
                          [BroadcastLog (srv_id server)
                             ''Error: No files found in server directory. Please upload your bot files first.''])
                    else
                      (let starting = [BroadcastLog (srv_id server) ''Starting bot process...'']
                       in case startProcess env (srv_id server) (srv_rootPath server)
                                 (srv_envVars server) (procs a) of
                            (Inl e, w, t) \<Rightarrow>
                              start_failed ident e (a\<lparr>procs := w\<rparr>)
                                (starting @ map (forward (srv_id server)) t)
                          | (Inr handle, w, t) \<Rightarrow>
                              (Response 200 (SuccessProcess handle),
                               a\<lparr>servers := updateServer (servers a) (srv_id server)
                                               (Some handle) ''running'',
                                 procs := w\<rparr>,
                               starting @ map (forward (srv_id server)) t)))))"

text \<open>Lines 354 to 375: the stop handler.\<close>

definition stop_handler ::
  "string option \<Rightarrow> string \<Rightarrow> app \<Rightarrow> response \<times> app \<times> app_effect list" where
  "stop_handler session ident a =
     (if \<not> truthy session then (notAuthenticated, a, [])
      else
        (case getServer (servers a) ident of
           None \<Rightarrow> (notFound, a, [])
         | Some server \<Rightarrow>
             if Some (srv_userId server) \<noteq> session then (notFound, a, [])
             else
               (case (case srv_processId server of
                        None \<Rightarrow> (procs a, [])
                      | Some handle \<Rightarrow>
                          if handle = [] then (procs a, [])
                          else (fst (snd (stopProcess handle (procs a))),
                                map Proc (snd (snd (stopProcess handle (procs a))))
                                @ [BroadcastLog (srv_id server) ''Bot process stopped''])) of
                  (w, t) \<Rightarrow>
                    (Response 200 Success,
                     a\<lparr>servers := updateServer (servers a) (srv_id server) None ''stopped'',
                       procs := w\<rparr>,
                     t))))"

section \<open>Examples\<close>

text \<open>
  A project with a manifest that names \<^verbatim>\<open>index.js\<close> as its main file, whose install
  succeeds; the same project with an install that exits with code 1; a project made of
  \<^verbatim>\<open>bot.js\<close> alone.
\<close>

definition project_main :: start_env where
  "project_main =
     \<lparr>root_exists = True,
      root_dir = Inr [''package.json'', ''index.js''],
      root_moved = None,
      packageJson = Manifest \<lparr>scripts_start = None, main = Some ''index.js''\<rparr>,
      install_output = [''added 1 package'' @ [CHR 0x0A]],
      install_end = Closed (Some 0),
      spawn_error = None,
      now = 1000\<rparr>"

definition project_bad_install :: start_env where
  "project_bad_install =
     project_main\<lparr>install_output := [''npm ERR! code E404''], install_end := Closed (Some 1)\<rparr>"

definition project_bot :: start_env where
  "project_bot =
     \<lparr>root_exists = True,
      root_dir = Inr [''bot.js''],
      root_moved = None,
      packageJson = NoManifest,
      install_output = [],
      install_end = Closed (Some 0),
      spawn_error = None,
      now = 1000\<rparr>"

text \<open>
  A directory that holds a README alone; five sink events; two servers of one user; a
  table where one user owns three servers and another owns one; one creation request and
  its body; a small file system.
\<close>

definition row :: "string \<Rightarrow> server" where
  "row i = \<lparr>srv_id = i, srv_name = ''bot'', srv_status = ''stopped'', srv_userId = ''u1'',
            srv_processId = None, srv_rootPath = ''/app/servers/'' @ i, srv_envVars = [],
            srv_createdAt = 0\<rparr>"

definition app_two :: app where
  "app_two = \<lparr>servers = [row ''a'', row ''b''], procs = proc_init, dirs = []\<rparr>"

definition request_env :: create_env where
  "request_env = \<lparr>serversRoot = ''/app/servers'', dir_now = 1000, dir_random = ''k3j9x0q1z'',
                   new_id = ''d'', db_now = 1001, zod_error = JsError ''ZodError'' ''invalid''\<rparr>"

definition project_empty :: start_env where
  "project_empty = project_bot\<lparr>root_dir := Inr [''README.md'']\<rparr>"

definition sink_events :: "sink_event list" where
  "sink_events = [Connection (Some ''s1''), Connection (Some ''s2''), Connection (Some ''s1''),
           Connection None, Transport 2 CLOSING]"

definition app_shared :: app where
  "app_shared =
     \<lparr>servers = [row ''a'', (row ''x'')\<lparr>srv_userId := ''u2''\<rparr>, row ''b'', row ''c''],
      procs = proc_init, dirs = []\<rparr>"

definition bot_body :: create_body where
  "bot_body = \<lparr>body_name = Some ''bot'', body_status = Some ''stopped'', body_envVars = Some []\<rparr>"

definition site :: fs where
  "site =
     \<lparr>entries =
        [([''srv''], Directory),
         ([''srv'', ''a''], Directory),
         ([''srv'', ''a'', ''index.js''], File),
         ([''srv'', ''a'', ''notes.txt''], File),
         ([''srv'', ''a'', ''sub''], Directory),
         ([''srv'', ''a'', ''sub'', ''x.txt''], File),
         ([''srv'', ''a'', ''.root_moved''], Directory),
         ([''srv'', ''a'', ''.root_moved'', ''index.js''], File)],
      cwd = [''srv'']\<rparr>"

section \<open>Facts about the string helpers\<close>

lemma str_includes_iff_sublist: "str_includes s sub \<longleftrightarrow> sublist sub s"
  by (induction s) (auto simp: sublist_Cons_right)

lemma basename_no_slash: "CHR ''/'' \<notin> set (basename p)"
proof -
  have "\<forall>c \<in> set (takeWhile (\<lambda>c. c \<noteq> CHR ''/'') xs). c \<noteq> CHR ''/''" for xs
    by (auto dest: set_takeWhileD)
  then show ?thesis unfolding basename_def by fastforce
qed

lemma basename_join:
  assumes "CHR ''/'' \<notin> set name" and "name \<noteq> []"
  shows "basename (dir @ ''/'' @ name) = name"
proof -
  have r: "rev (dir @ ''/'' @ name) = rev name @ (CHR ''/'' # rev dir)" by simp
  from assms have hd: "hd (rev name) \<noteq> CHR ''/''"
    by (metis hd_in_set rev_is_Nil_conv set_rev)
  from assms(2) have d: "dropWhile (\<lambda>c. c = CHR ''/'') (rev name @ (CHR ''/'' # rev dir))
      = rev name @ (CHR ''/'' # rev dir)"
    using hd by (cases "rev name") auto
  from assms(1) have t: "takeWhile (\<lambda>c. c \<noteq> CHR ''/'') (rev name @ (CHR ''/'' # rev dir)) = rev name"
    by (auto simp: takeWhile_tail)
  show ?thesis unfolding basename_def r d t by simp
qed

text \<open>Decimal printing is injective and never prints a dash, so a handle id splits at its last dash.\<close>

lemma digit_char_mem: "d < 10 \<Longrightarrow> digit_char d \<in> set ''0123456789''"
  unfolding digit_char_def by (rule nth_mem) simp

lemma digit_char_not_dash: "d < 10 \<Longrightarrow> digit_char d \<noteq> CHR ''-''"
  using digit_char_mem[of d] by auto

lemma digit_char_inj: "d < 10 \<Longrightarrow> e < 10 \<Longrightarrow> digit_char d = digit_char e \<longleftrightarrow> d = e"
  unfolding digit_char_def by (subst nth_eq_iff_index_eq) simp_all

lemma show_nat_not_Nil: "show_nat n \<noteq> []"
  by (subst show_nat.simps) simp

lemma show_nat_no_dash: "CHR ''-'' \<notin> set (show_nat n)"
proof (induction n rule: show_nat.induct)
  case (1 n)
  show ?case
  proof (cases "n < 10")
    case True
    then show ?thesis
      using digit_char_not_dash[of n] by (auto simp: show_nat.simps[of n])
  next
    case False
    with 1 show ?thesis
      using digit_char_not_dash[of "n mod 10"] by (auto simp: show_nat.simps[of n])
  qed
qed

lemma show_nat_inj: "show_nat m = show_nat n \<Longrightarrow> m = n"
proof (induction m arbitrary: n rule: show_nat.induct)
  case (1 m)
  show ?case
  proof (cases "m < 10")
    case m: True
    show ?thesis
    proof (cases "n < 10")
      case True
      with m 1(2) show ?thesis
        by (simp add: show_nat.simps[of m] show_nat.simps[of n] digit_char_inj)
    next
      case False
      with m 1(2) show ?thesis
        using show_nat_not_Nil[of "n div 10"]
        by (simp add: show_nat.simps[of m] show_nat.simps[of n])
    qed
  next
    case m: False
    show ?thesis
    proof (cases "n < 10")
      case True
      with m 1(2) show ?thesis
        using show_nat_not_Nil[of "m div 10"]
        by (simp add: show_nat.simps[of m] show_nat.simps[of n])
    next
      case False
      with m 1(2) have e: "show_nat (m div 10) = show_nat (n div 10)"
        and d: "digit_char (m mod 10) = digit_char (n mod 10)"
        by (simp_all add: show_nat.simps[of m] show_nat.simps[of n])
      from 1(1)[OF m e] have "m div 10 = n div 10" .
      moreover from d have "m mod 10 = n mod 10" by (simp add: digit_char_inj)
      ultimately show ?thesis by (metis div_mult_mod_eq)
    qed
  qed
qed

lemma split_last_dash:
  assumes "CHR ''-'' \<notin> set d1" and "CHR ''-'' \<notin> set d2"
    and "s1 @ ''-'' @ d1 = s2 @ ''-'' @ d2"
  shows "s1 = s2 \<and> d1 = d2"
proof -
  from assms(3) have "rev (s1 @ ''-'' @ d1) = rev (s2 @ ''-'' @ d2)" by simp
  then have "rev d1 @ CHR ''-'' # rev s1 = rev d2 @ CHR ''-'' # rev s2" by simp
  then have "takeWhile (\<lambda>c. c \<noteq> CHR ''-'') (rev d1 @ CHR ''-'' # rev s1)
           = takeWhile (\<lambda>c. c \<noteq> CHR ''-'') (rev d2 @ CHR ''-'' # rev s2)" by simp
  moreover have "takeWhile (\<lambda>c. c \<noteq> CHR ''-'') (rev d1 @ CHR ''-'' # rev s1) = rev d1"
    using assms(1) by (auto simp: takeWhile_tail)
  moreover have "takeWhile (\<lambda>c. c \<noteq> CHR ''-'') (rev d2 @ CHR ''-'' # rev s2) = rev d2"
    using assms(2) by (auto simp: takeWhile_tail)
  ultimately have "d1 = d2" by simp
  with assms(3) show ?thesis by simp
qed

lemma handle_id_inj:
  "serverId @ ''-'' @ show_nat n = serverId' @ ''-'' @ show_nat n' \<longleftrightarrow> serverId = serverId' \<and> n = n'"
  using split_last_dash[OF show_nat_no_dash show_nat_no_dash] show_nat_inj by blast

section \<open>Facts about the file system\<close>

lemma split_not_Nil: "split sep s \<noteq> []"
  by (induction s) (auto split: list.splits)

lemma map_of_filter_prefix:
  "map_of (filter (\<lambda>(q, k). \<not> prefix r q) xs) q = (if prefix r q then None else map_of xs q)"
  by (induction xs) auto

lemma lookup_remove:
  assumes "resolve fs p = Some r" and "r \<noteq> []"
  shows "lookup (remove fs p) q = (if prefix r q then None else lookup fs q)"
  using assms by (auto simp: remove_def lookup_def map_of_filter_prefix)

lemma cwd_remove: "cwd (remove fs p) = cwd fs"
  by (simp add: remove_def split: option.splits)

lemma step_determined:
  "step fs cur name = Some x \<Longrightarrow> step fs' cur name = None \<or> step fs' cur name = Some x"
  by (auto simp: step_def split: if_splits)

lemma step_gone:
  assumes "step fs cur name = Some r" and "r \<noteq> []"
    and "\<And>q. prefix r q \<Longrightarrow> lookup fs' q = None"
  shows "step fs' cur name = None"
proof -
  have r: "lookup fs' r = None" using assms(3) by simp
  consider "name = [] \<or> name = ''.''" | "name = ''..''" "name \<noteq> []"
    | "name \<noteq> []" "name \<noteq> ''.''" "name \<noteq> ''..''" by blast
  then show ?thesis
  proof cases
    case 1
    with assms(1) have "r = cur" by (auto simp: step_def split: if_splits)
    with r show ?thesis by (simp add: step_def)
  next
    case 2
    with assms(1) have b: "r = butlast cur" by (auto simp: step_def split: if_splits)
    with assms(2) have "cur \<noteq> []" by auto
    then have "prefix r cur" using b by (metis append_butlast_last_id prefixI)
    then have "lookup fs' cur = None" by (rule assms(3))
    then show ?thesis by (simp add: step_def)
  next
    case 3
    with assms(1) have "r = cur @ [name]" by (auto simp: step_def split: if_splits)
    with r 3 show ?thesis by (simp add: step_def)
  qed
qed

lemma walk_gone:
  assumes "walk fs cur names = Some r" and "names \<noteq> []" and "r \<noteq> []"
    and "\<And>q. prefix r q \<Longrightarrow> lookup fs' q = None"
  shows "walk fs' cur names = None"
  using assms(1,2)
proof (induction names arbitrary: cur)
  case Nil
  then show ?case by simp
next
  case (Cons name names)
  from Cons.prems(1) obtain c where c: "step fs cur name = Some c" "walk fs c names = Some r"
    by (auto split: option.splits)
  show ?case
  proof (cases names)
    case Nil
    with c have "step fs cur name = Some r" by simp
    from step_gone[OF this assms(3,4)] show ?thesis by simp
  next
    case (Cons n ns)
    from step_determined[OF c(1), of fs'] show ?thesis
    proof
      assume "step fs' cur name = None" then show ?thesis by simp
    next
      assume "step fs' cur name = Some c"
      moreover have "walk fs' c names = None"
        using Cons.IH[OF c(2)] Cons by simp
      ultimately show ?thesis by simp
    qed
  qed
qed

lemma remove_gone:
  assumes "resolve fs p = Some r" and "r \<noteq> []"
  shows "\<not> pathExists (remove fs p) p"
proof -
  from assms(1) have p: "p \<noteq> []"
    and w: "walk fs (if hd p = CHR ''/'' then [] else cwd fs) (split CHR ''/'' p) = Some r"
    by (auto simp: resolve_def split: if_splits)
  have "walk (remove fs p) (if hd p = CHR ''/'' then [] else cwd fs) (split CHR ''/'' p) = None"
    using w split_not_Nil assms(2)
  proof (rule walk_gone)
    fix q assume "prefix r q"
    then show "lookup (remove fs p) q = None" by (simp add: lookup_remove[OF assms])
  qed
  then show ?thesis by (auto simp: pathExists_def resolve_def cwd_remove p)
qed

lemma site_resolve:
  "resolve site ''/srv/a/index.js'' = Some [''srv'', ''a'', ''index.js'']"
  "resolve site ''/srv/a/sub/'' = Some [''srv'', ''a'', ''sub'']"
  "resolve site ''a/./.root_moved/index.js'' = Some [''srv'', ''a'', ''.root_moved'', ''index.js'']"
  "resolve site ''/srv/a/gone.txt'' = None"
  by (simp_all add: resolve_def step_def lookup_def site_def)

section \<open>Claims about FileService\<close>

text \<open>
  C10. A path that does not contain \<^verbatim>\<open>.root_moved\<close> and whose basename is one of the ten
  protected names makes \<open>deleteFile\<close> throw "Cannot delete protected file" and leaves the
  file system as it was; every other path (every path containing \<^verbatim>\<open>.root_moved\<close> among
  them) is removed when it exists, and is a silent no-op when it does not. A path exists
  when it resolves, however it is spelled; removing it leaves it unresolvable and deletes
  the entry it resolved to with everything below, and no other entry.
\<close>

theorem C10_deleteFile_protected:
  "deleteFile fs filePath =
     (if \<not> sublist ''.root_moved'' filePath \<and>
         basename filePath \<in> {''package.json'', ''package-lock.json'', ''yarn.lock'',
           ''index.js'', ''main.js'', ''app.js'', ''server.js'', ''bot.js'', ''config.js'',
           ''command.js''}
      then (Inl (Error (''Cannot delete protected file: '' @ basename filePath)), fs)
      else (Inr (), if pathExists fs filePath then remove fs filePath else fs)) \<and>
   (pathExists fs filePath \<longleftrightarrow> resolve fs filePath \<noteq> None) \<and>
   (resolve fs filePath = Some r \<and> r \<noteq> [] \<and>
    (sublist ''.root_moved'' filePath \<or>
     basename filePath \<notin> {''package.json'', ''package-lock.json'', ''yarn.lock'',
           ''index.js'', ''main.js'', ''app.js'', ''server.js'', ''bot.js'', ''config.js'',
           ''command.js''}) \<longrightarrow>
      fst (deleteFile fs filePath) = Inr () \<and>
      \<not> pathExists (snd (deleteFile fs filePath)) filePath \<and>
      (\<forall>q. lookup (snd (deleteFile fs filePath)) q =
            (if prefix r q then None else lookup fs q)))"
proof (intro conjI impI)
  show c: "deleteFile fs filePath =
     (if \<not> sublist ''.root_moved'' filePath \<and>
         basename filePath \<in> {''package.json'', ''package-lock.json'', ''yarn.lock'',
           ''index.js'', ''main.js'', ''app.js'', ''server.js'', ''bot.js'', ''config.js'',
           ''command.js''}
      then (Inl (Error (''Cannot delete protected file: '' @ basename filePath)), fs)
      else (Inr (), if pathExists fs filePath then remove fs filePath else fs))"
    by (simp add: deleteFile_def Let_def str_includes_iff_sublist protectedFiles_def)
  show "pathExists fs filePath \<longleftrightarrow> resolve fs filePath \<noteq> None"
    by (simp add: pathExists_def)
  assume a: "resolve fs filePath = Some r \<and> r \<noteq> [] \<and>
    (sublist ''.root_moved'' filePath \<or>
     basename filePath \<notin> {''package.json'', ''package-lock.json'', ''yarn.lock'',
           ''index.js'', ''main.js'', ''app.js'', ''server.js'', ''bot.js'', ''config.js'',
           ''command.js''})"
  then have e: "pathExists fs filePath" by (simp add: pathExists_def)
  from a e have d: "deleteFile fs filePath = (Inr (), remove fs filePath)"
    by (subst c) auto
  show "fst (deleteFile fs filePath) = Inr ()" by (simp add: d)
  show "\<not> pathExists (snd (deleteFile fs filePath)) filePath"
    using a remove_gone[of fs filePath r] by (simp add: d)
  show "\<forall>q. lookup (snd (deleteFile fs filePath)) q =
            (if prefix r q then None else lookup fs q)"
    using a lookup_remove[of fs filePath r] by (simp add: d)
qed

theorem C10_deleteFile_protected_witness:
  "deleteFile site ''/srv/a/index.js'' =
     (Inl (Error ''Cannot delete protected file: index.js''), site) \<and>
   fst (deleteFile site ''/srv/a/sub/'') = Inr () \<and>
   \<not> pathExists (snd (deleteFile site ''/srv/a/sub/'')) ''/srv/a/sub/'' \<and>
   lookup (snd (deleteFile site ''/srv/a/sub/'')) [''srv'', ''a'', ''sub'', ''x.txt''] = None \<and>
   lookup (snd (deleteFile site ''/srv/a/sub/'')) [''srv'', ''a'', ''notes.txt''] = Some File \<and>
   fst (deleteFile site ''a/./.root_moved/index.js'') = Inr () \<and>
   \<not> pathExists (snd (deleteFile site ''a/./.root_moved/index.js'')) ''/srv/a/.root_moved/index.js'' \<and>
   deleteFile site ''/srv/a/gone.txt'' = (Inr (), site)"
  using
    C10_deleteFile_protected[of site "''/srv/a/index.js''" "[''srv'', ''a'', ''index.js'']"]
    C10_deleteFile_protected[of site "''/srv/a/sub/''" "[''srv'', ''a'', ''sub'']"]
    C10_deleteFile_protected[of site "''a/./.root_moved/index.js''"
      "[''srv'', ''a'', ''.root_moved'', ''index.js'']"]
    C10_deleteFile_protected[of site "''/srv/a/gone.txt''" "[''srv'']"]
  apply (simp add: site_resolve str_includes_iff_sublist[symmetric] basename_def)
  apply (simp add: pathExists_def resolve_def step_def lookup_def site_def remove_def)
  done

section \<open>Facts about ProcessService\<close>

lemma fallbackEntry_explicit:
  "fallbackEntry files =
     (if ''index.js'' \<in> set files then Some ''index.js''
      else if ''main.js'' \<in> set files then Some ''main.js''
      else if ''app.js'' \<in> set files then Some ''app.js''
      else if ''server.js'' \<in> set files then Some ''server.js''
      else if ''bot.js'' \<in> set files then Some ''bot.js''
      else None)"
  by (simp add: fallbackEntry_def commonEntries_def)

lemma resolveEntry_logs:
  "\<not> list_ex is_SpawnChild (snd (resolveEntry files pj))"
  "\<not> list_ex is_SpawnInstall (snd (resolveEntry files pj))"
  by (auto simp: resolveEntry_def Let_def list_ex_iff split: manifest_state.splits option.splits)

lemma scanProject_logs:
  "\<not> list_ex is_SpawnChild (snd (scanProject env rootPath))"
  "\<not> list_ex is_SpawnInstall (snd (scanProject env rootPath))"
  by (auto simp: scanProject_def list_ex_iff split: option.splits sum.splits)

lemma installDependencies_frame:
  "processes (fst (snd (installDependencies env dir w))) = processes w"
  "spawned w \<le> spawned (fst (snd (installDependencies env dir w)))"
  "\<not> list_ex is_SpawnChild (snd (snd (installDependencies env dir w)))"
  by (auto simp: installDependencies_def Let_def list_ex_iff split: install_end.splits)

lemma installDependencies_fails:
  assumes "packageJson env \<noteq> NoManifest"
    and "install_end env = Closed code" and "code \<noteq> Some 0"
  shows "\<exists>t. installDependencies env dir w =
     (Inl (Error (''npm install failed with code '' @ show_code code)),
      w\<lparr>spawned := Suc (spawned w)\<rparr>, t) \<and> \<not> list_ex is_SpawnChild t"
  using assms by (auto simp: installDependencies_def Let_def list_ex_iff)

lemma launch_Inr:
  assumes "launch env serverId script dir envVars w = (Inr h, w', t)"
  shows "h = serverId @ ''-'' @ show_nat (now env) \<and>
     w' = w\<lparr>processes := (processes w)(h \<mapsto> spawned w), spawned := Suc (spawned w)\<rparr> \<and>
     t = [Log (''Starting process: '' @ script),
          SpawnChild (spawned w) (hd (split CHR '' '' script)) (tl (split CHR '' '' script)) dir envVars]"
  using assms by (auto simp: launch_def Let_def split: option.splits)

lemma launch_Inl:
  assumes "launch env serverId script dir envVars w = (Inl e, w', t)"
  shows "w' = w \<and> t = [Log (''Starting process: '' @ script)] \<and> spawn_error env = Some e"
  using assms by (auto simp: launch_def Let_def split: option.splits)

lemma startProcess_try_Inr:
  assumes "startProcess_try env serverId rootPath envVars w = (Inr h, w', t)"
  shows "\<exists>files dir t1 script t2 w1 t3 t4.
     scanProject env rootPath = (Inr (files, dir), t1) \<and>
     resolveEntry files (packageJson env) = (Inr script, t2) \<and>
     installDependencies env dir w = (Inr (), w1, t3) \<and>
     launch env serverId script dir envVars w1 = (Inr h, w', t4) \<and>
     t = Log ''Analyzing project structure...'' # t1 @ t2 @ t3 @ t4"
  using assms
  by (auto simp: startProcess_try_def Let_def split: prod.splits sum.splits)

lemma startProcess_Inr:
  "startProcess env serverId rootPath envVars w = (Inr h, w', t) \<longleftrightarrow>
   startProcess_try env serverId rootPath envVars w = (Inr h, w', t)"
  by (auto simp: startProcess_def split: prod.splits sum.splits)

text \<open>
  A successful start ran the command the resolution chose, in the directory the scan
  chose, and registered the one child it spawned under the handle id it returns.
\<close>

lemma startProcess_success:
  assumes "startProcess env serverId rootPath envVars w = (Inr h, w', t)"
  shows "\<exists>files dir t1 script t2 t' w1.
     scanProject env rootPath = (Inr (files, dir), t1) \<and>
     resolveEntry files (packageJson env) = (Inr script, t2) \<and>
     h = serverId @ ''-'' @ show_nat (now env) \<and>
     spawned w \<le> spawned w1 \<and> processes w1 = processes w \<and>
     w' = w1\<lparr>processes := (processes w1)(h \<mapsto> spawned w1), spawned := Suc (spawned w1)\<rparr> \<and>
     t = t' @ [SpawnChild (spawned w1) (hd (split CHR '' '' script))
                 (tl (split CHR '' '' script)) dir envVars] \<and>
     \<not> list_ex is_SpawnChild t'"
proof -
  from assms have "startProcess_try env serverId rootPath envVars w = (Inr h, w', t)"
    by (simp add: startProcess_Inr)
  from startProcess_try_Inr[OF this] obtain files dir t1 script t2 w1 t3 t4 where
    s: "scanProject env rootPath = (Inr (files, dir), t1)" and
    r: "resolveEntry files (packageJson env) = (Inr script, t2)" and
    i: "installDependencies env dir w = (Inr (), w1, t3)" and
    l: "launch env serverId script dir envVars w1 = (Inr h, w', t4)" and
    t: "t = Log ''Analyzing project structure...'' # t1 @ t2 @ t3 @ t4"
    by blast
  have n1: "\<not> list_ex is_SpawnChild t1"
    using scanProject_logs(1)[of env rootPath] s by simp
  have n2: "\<not> list_ex is_SpawnChild t2"
    using resolveEntry_logs(1)[of files "packageJson env"] r by simp
  have n3: "\<not> list_ex is_SpawnChild t3" "processes w1 = processes w" "spawned w \<le> spawned w1"
    using installDependencies_frame[where env=env and dir=dir and w=w] i by simp_all
  note L = launch_Inr[OF l]
  let ?t' = "Log ''Analyzing project structure...'' # t1 @ t2 @ t3
               @ [Log (''Starting process: '' @ script)]"
  have "t = ?t' @ [SpawnChild (spawned w1) (hd (split CHR '' '' script))
                     (tl (split CHR '' '' script)) dir envVars]"
    using t L by simp
  moreover have "\<not> list_ex is_SpawnChild ?t'"
    using n1 n2 n3 by (auto simp: list_ex_iff)
  ultimately show ?thesis using L n3 s r by blast
qed

text \<open>A failed resolution fails the start, with the registry as it was.\<close>

lemma startProcess_no_entry:
  assumes "scanProject env rootPath = (Inr (files, dir), t1)"
    and "resolveEntry files (packageJson env) = (Inl e, t2)"
  shows "startProcess env serverId rootPath envVars w =
     (Inl (Error (''Failed to start process: '' @ error_toString e)), w,
      Log ''Analyzing project structure...'' # t1 @ t2)"
  using assms by (simp add: startProcess_def startProcess_try_def)


lemma startProcess_try_Inl:
  assumes "startProcess_try env serverId rootPath envVars w = (Inl e, w', t)"
  shows "processes w' = processes w \<and> spawned w \<le> spawned w'"
proof -
  obtain r1 t1 where s: "scanProject env rootPath = (r1, t1)"
    by (cases "scanProject env rootPath")
  show ?thesis
  proof (cases r1)
    case (Inl e1)
    with s assms show ?thesis by (simp add: startProcess_try_def)
  next
    case (Inr fd)
    obtain files dir where fd: "fd = (files, dir)" by (cases fd)
    obtain r2 t2 where r: "resolveEntry files (packageJson env) = (r2, t2)"
      by (cases "resolveEntry files (packageJson env)")
    show ?thesis
    proof (cases r2)
      case (Inl e2)
      with s Inr fd r assms show ?thesis by (simp add: startProcess_try_def)
    next
      case script: (Inr script)
      obtain r3 w1 t3 where i: "installDependencies env dir w = (r3, w1, t3)"
        by (cases "installDependencies env dir w")
      have f: "processes w1 = processes w" "spawned w \<le> spawned w1"
        using installDependencies_frame[where env=env and dir=dir and w=w] i by simp_all
      show ?thesis
      proof (cases r3)
        case (Inl e3)
        with s Inr fd r script i f assms show ?thesis by (simp add: startProcess_try_def)
      next
        case u: (Inr u)
        obtain r4 w2 t4 where l: "launch env serverId script dir envVars w1 = (r4, w2, t4)"
          by (cases "launch env serverId script dir envVars w1")
        with s Inr fd r script i u assms have "r4 = Inl e" "w2 = w'"
          by (simp_all add: startProcess_try_def)
        with l launch_Inl[of env serverId script dir envVars w1 e w' t4] f show ?thesis by simp
      qed
    qed
  qed
qed

lemma startProcess_Inl:
  assumes "startProcess env serverId rootPath envVars w = (Inl e, w', t)"
  shows "processes w' = processes w \<and> spawned w \<le> spawned w'"
proof -
  from assms obtain e' where "startProcess_try env serverId rootPath envVars w = (Inl e', w', t)"
    by (auto simp: startProcess_def split: prod.splits sum.splits)
  then show ?thesis by (rule startProcess_try_Inl)
qed

lemma startProcess_registry_ok:
  assumes "registry_ok w"
  shows "registry_ok (fst (snd (startProcess env serverId rootPath envVars w)))"
proof -
  obtain r w' t where p: "startProcess env serverId rootPath envVars w = (r, w', t)"
    by (cases "startProcess env serverId rootPath envVars w")
  show ?thesis
  proof (cases r)
    case (Inl e)
    with p startProcess_Inl[of env serverId rootPath envVars w e w' t]
    have "processes w' = processes w" "spawned w \<le> spawned w'" by simp_all
    with assms p show ?thesis by (fastforce simp: registry_ok_def)
  next
    case (Inr h)
    with p startProcess_success[of env serverId rootPath envVars w h w' t]
    obtain w1 where w1: "spawned w \<le> spawned w1" "processes w1 = processes w"
      "w' = w1\<lparr>processes := (processes w1)(h \<mapsto> spawned w1), spawned := Suc (spawned w1)\<rparr>"
      by blast
    have lt: "\<And>k c. processes w k = Some c \<Longrightarrow> c < spawned w1"
      using assms w1(1) by (fastforce simp: registry_ok_def)
    have "inj_on (processes w') (dom (processes w'))"
      using assms w1 lt unfolding registry_ok_def inj_on_def dom_def
      by (auto split: if_splits dest: lt)
    moreover have "\<forall>k c. processes w' k = Some c \<longrightarrow> c < spawned w'"
      using w1 lt by (auto split: if_splits dest: lt less_SucI)
    ultimately have "registry_ok w'" by (simp add: registry_ok_def)
    with p show ?thesis by simp
  qed
qed

lemma on_child_event_registry_ok:
  "registry_ok w \<Longrightarrow> registry_ok (fst (on_child_event h ev w))"
  by (cases ev) (auto simp: registry_ok_def inj_on_def dom_def)

lemma stopProcess_registry_ok:
  "registry_ok w \<Longrightarrow> registry_ok (fst (snd (stopProcess h w)))"
  by (auto simp: stopProcess_def registry_ok_def inj_on_def dom_def split: option.splits)

lemma proc_step_registry_ok: "registry_ok w \<Longrightarrow> registry_ok (proc_step op w)"
  by (cases op)
    (simp_all add: startProcess_registry_ok stopProcess_registry_ok on_child_event_registry_ok)

lemma foldl_registry_ok:
  "registry_ok w \<Longrightarrow> registry_ok (foldl (\<lambda>w op. proc_step op w) w ops)"
  by (induction ops arbitrary: w) (simp_all add: proc_step_registry_ok)

lemma proc_run_registry_ok: "registry_ok (proc_run ops)"
  unfolding proc_run_def by (rule foldl_registry_ok) (simp add: registry_ok_def proc_init_def)


lemma children_of_append: "children_of (xs @ ys) = children_of xs @ children_of ys"
  by (induction xs rule: children_of.induct) simp_all

lemma logs_of_append: "logs_of (xs @ ys) = logs_of xs @ logs_of ys"
  by (induction xs rule: logs_of.induct) simp_all

lemma children_of_none: "\<not> list_ex is_SpawnChild t \<Longrightarrow> children_of t = []"
  by (induction t rule: children_of.induct) simp_all

lemma logs_of_map_Log: "logs_of (map (\<lambda>d. Log (f d)) xs) = map f xs"
  by (induction xs) simp_all


lemmas start_defs = startProcess_def startProcess_try_def scanProject_def resolveEntry_def
  installDependencies_def launch_def Let_def fallbackEntry_explicit

lemma project_bot_start:
  "startProcess project_bot ''s1'' ''/srv/a'' [] w =
     (Inr ''s1-1000'',
      w\<lparr>processes := (processes w)(''s1-1000'' \<mapsto> spawned w), spawned := Suc (spawned w)\<rparr>,
      [Log ''Analyzing project structure...'',
       Log ''Found files in root directory: bot.js'',
       Log ''No package.json found, looking for common entry points'',
       Log ''Using entry file: bot.js'',
       Log ''Checking for package.json and dependencies...'',
       Log ''Starting process: node bot.js'',
       SpawnChild (spawned w) ''node'' [''bot.js''] (Root ''/srv/a'') []])"
  by (simp add: start_defs project_bot_def show_nat.simps digit_char_def)

section \<open>Claims about ProcessService\<close>

text \<open>
  C1, as amended. When \<^verbatim>\<open>package.json\<close> is read (\<open>Manifest m\<close>) or is missing
  (\<open>NoManifest\<close>), the resolution selects, in this order: \<^verbatim>\<open>npm start\<close> whenever the
  manifest gives \<^verbatim>\<open>scripts.start\<close> a non-empty value, whatever the other files are; else
  \<^verbatim>\<open>node <main>\<close> when the manifest's main file is a non-empty name that is in the listing;
  else \<^verbatim>\<open>node <f>\<close> for the first \<open>f\<close> of index.js, main.js, app.js, server.js, bot.js in
  the listing; and when none is there it throws an error whose message starts with
  "No valid entry point found.".
\<close>

theorem C1_entry_point_priority:
  "(truthy (scripts_start m) \<longrightarrow>
      fst (resolveEntry files (Manifest m)) = Inr ''npm start'') \<and>
   (\<not> truthy (scripts_start m) \<and> main m = Some f \<and> f \<noteq> [] \<and> f \<in> set files \<longrightarrow>
      fst (resolveEntry files (Manifest m)) = Inr (''node '' @ f)) \<and>
   (pj = NoManifest \<or>
    pj = Manifest m \<and> \<not> truthy (scripts_start m) \<and>
      (\<forall>g. main m = Some g \<longrightarrow> g = [] \<or> g \<notin> set files) \<longrightarrow>
      fst (resolveEntry files pj) =
        (if ''index.js'' \<in> set files then Inr ''node index.js''
         else if ''main.js'' \<in> set files then Inr ''node main.js''
         else if ''app.js'' \<in> set files then Inr ''node app.js''
         else if ''server.js'' \<in> set files then Inr ''node server.js''
         else if ''bot.js'' \<in> set files then Inr ''node bot.js''
         else Inl (Error (if pj = NoManifest then noEntryPlain else noEntryManifest)))) \<and>
   prefix ''No valid entry point found.'' noEntryPlain \<and>
   prefix ''No valid entry point found.'' noEntryManifest"
proof (intro conjI impI)
  assume "truthy (scripts_start m)"
  then show "fst (resolveEntry files (Manifest m)) = Inr ''npm start''"
    by (simp add: resolveEntry_def Let_def)
next
  assume "\<not> truthy (scripts_start m) \<and> main m = Some f \<and> f \<noteq> [] \<and> f \<in> set files"
  then show "fst (resolveEntry files (Manifest m)) = Inr (''node '' @ f)"
    by (simp add: resolveEntry_def Let_def)
next
  assume a: "pj = NoManifest \<or>
    pj = Manifest m \<and> \<not> truthy (scripts_start m) \<and>
      (\<forall>g. main m = Some g \<longrightarrow> g = [] \<or> g \<notin> set files)"
  show "fst (resolveEntry files pj) =
        (if ''index.js'' \<in> set files then Inr ''node index.js''
         else if ''main.js'' \<in> set files then Inr ''node main.js''
         else if ''app.js'' \<in> set files then Inr ''node app.js''
         else if ''server.js'' \<in> set files then Inr ''node server.js''
         else if ''bot.js'' \<in> set files then Inr ''node bot.js''
         else Inl (Error (if pj = NoManifest then noEntryPlain else noEntryManifest)))"
    using a
  proof
    assume "pj = NoManifest"
    then show ?thesis
      by (simp add: resolveEntry_def Let_def fallbackEntry_explicit)
  next
    assume "pj = Manifest m \<and> \<not> truthy (scripts_start m) \<and>
      (\<forall>g. main m = Some g \<longrightarrow> g = [] \<or> g \<notin> set files)"
    then show ?thesis
      by (cases "main m") (auto simp: resolveEntry_def Let_def fallbackEntry_explicit)
  qed
next
  show "prefix ''No valid entry point found.'' noEntryPlain"
    by (simp add: noEntryPlain_def)
  show "prefix ''No valid entry point found.'' noEntryManifest"
    by (simp add: noEntryManifest_def)
qed

theorem C1_entry_point_priority_witness:
  "fst (resolveEntry [''package.json'', ''app.js'', ''index.js'']
         (Manifest \<lparr>scripts_start = Some ''node app.js'', main = Some ''app.js''\<rparr>))
     = Inr ''npm start'' \<and>
   fst (resolveEntry [''package.json'', ''app.js'', ''index.js'']
         (Manifest \<lparr>scripts_start = None, main = Some ''app.js''\<rparr>))
     = Inr ''node app.js'' \<and>
   fst (resolveEntry [''package.json'', ''bot.js'', ''server.js'']
         (Manifest \<lparr>scripts_start = None, main = Some ''app.js''\<rparr>))
     = Inr ''node server.js'' \<and>
   fst (resolveEntry [''README.md''] NoManifest) = Inl (Error noEntryPlain)"
  using
    C1_entry_point_priority[where m = "\<lparr>scripts_start = Some ''node app.js'', main = Some ''app.js''\<rparr>"
      and files = "[''package.json'', ''app.js'', ''index.js'']" and f = "''app.js''"
      and pj = NoManifest]
    C1_entry_point_priority[where m = "\<lparr>scripts_start = None, main = Some ''app.js''\<rparr>"
      and files = "[''package.json'', ''app.js'', ''index.js'']" and f = "''app.js''"
      and pj = NoManifest]
    C1_entry_point_priority[where m = "\<lparr>scripts_start = None, main = Some ''app.js''\<rparr>"
      and files = "[''package.json'', ''bot.js'', ''server.js'']" and f = "''app.js''"
      and pj = "Manifest \<lparr>scripts_start = None, main = Some ''app.js''\<rparr>"]
    C1_entry_point_priority[where m = "\<lparr>scripts_start = None, main = None\<rparr>"
      and files = "[''README.md'']" and f = "''app.js''" and pj = NoManifest]
  by simp

text \<open>
  The claim as first stated fails on a manifest that declares an empty start script next to
  \<^verbatim>\<open>index.js\<close>: \<^verbatim>\<open>node index.js\<close> is selected, not \<^verbatim>\<open>npm start\<close>. It also fails on a
  manifest that cannot be read: the read error is thrown although \<^verbatim>\<open>index.js\<close> is there.
\<close>

theorem C1_empty_start_script_counterexample:
  "fst (resolveEntry [''package.json'', ''index.js'']
         (Manifest \<lparr>scripts_start = Some [], main = None\<rparr>)) = Inr ''node index.js'' \<and>
   fst (resolveEntry [''package.json'', ''index.js'']
         (Manifest \<lparr>scripts_start = Some [], main = None\<rparr>)) \<noteq> Inr ''npm start'' \<and>
   fst (resolveEntry [''package.json'', ''index.js'']
         (Unreadable (JsError ''SyntaxError'' ''Unexpected end of JSON input'')))
     = Inl (JsError ''SyntaxError'' ''Unexpected end of JSON input'')"
  by (simp add: resolveEntry_def Let_def fallbackEntry_explicit)

text \<open>
  C3. When \<^verbatim>\<open>package.json\<close> exists and \<^verbatim>\<open>npm install\<close> closes with a code other than 0,
  \<open>startProcess\<close> throws, the registry map is what it was, and no process is spawned for
  the project; whenever the install ran, the message thrown names the exit code.
\<close>

theorem C3_install_failure:
  assumes "packageJson env \<noteq> NoManifest"
    and "install_end env = Closed code" and "code \<noteq> Some 0"
  shows "isl (fst (startProcess env serverId rootPath envVars w)) \<and>
     processes (fst (snd (startProcess env serverId rootPath envVars w))) = processes w \<and>
     \<not> list_ex is_SpawnChild (snd (snd (startProcess env serverId rootPath envVars w))) \<and>
     (list_ex is_SpawnInstall (snd (snd (startProcess env serverId rootPath envVars w))) \<longrightarrow>
        fst (startProcess env serverId rootPath envVars w) =
          Inl (Error (''Failed to start process: Error: npm install failed with code ''
                 @ show_code code)))"
proof -
  obtain r1 t1 where s: "scanProject env rootPath = (r1, t1)"
    by (cases "scanProject env rootPath")
  have l1: "\<not> list_ex is_SpawnChild t1" "\<not> list_ex is_SpawnInstall t1"
    using scanProject_logs[of env rootPath] s by simp_all
  show ?thesis
  proof (cases r1)
    case (Inl e)
    with s l1 show ?thesis
      by (simp add: startProcess_def startProcess_try_def)
  next
    case (Inr fd)
    obtain files dir where fd: "fd = (files, dir)" by (cases fd)
    obtain r2 t2 where r: "resolveEntry files (packageJson env) = (r2, t2)"
      by (cases "resolveEntry files (packageJson env)")
    have l2: "\<not> list_ex is_SpawnChild t2" "\<not> list_ex is_SpawnInstall t2"
      using resolveEntry_logs[of files "packageJson env"] r by simp_all
    show ?thesis
    proof (cases r2)
      case (Inl e)
      with s Inr fd r l1 l2 show ?thesis
        by (simp add: startProcess_def startProcess_try_def)
    next
      case script: (Inr startScript)
      from installDependencies_fails[OF assms, of dir w]
      obtain t3 where i: "installDependencies env dir w =
         (Inl (Error (''npm install failed with code '' @ show_code code)),
          w\<lparr>spawned := Suc (spawned w)\<rparr>, t3)" and l3: "\<not> list_ex is_SpawnChild t3"
        by blast
      with s Inr fd r script l1 l2 show ?thesis
        by (simp add: startProcess_def startProcess_try_def Error_def)
    qed
  qed
qed

theorem C3_install_failure_witness:
  "fst (startProcess project_bad_install ''s1'' ''/srv/a'' [] proc_init) =
     Inl (Error ''Failed to start process: Error: npm install failed with code 1'') \<and>
   processes (fst (snd (startProcess project_bad_install ''s1'' ''/srv/a'' [] proc_init))) = Map.empty \<and>
   \<not> list_ex is_SpawnChild (snd (snd (startProcess project_bad_install ''s1'' ''/srv/a'' [] proc_init)))"
proof -
  have a: "packageJson project_bad_install \<noteq> NoManifest"
    by (simp add: project_bad_install_def project_main_def)
  have b: "install_end project_bad_install = Closed (Some 1)"
    by (simp add: project_bad_install_def project_main_def)
  have c: "Some (1::int) \<noteq> Some 0" by simp
  have d: "list_ex is_SpawnInstall (snd (snd (startProcess project_bad_install ''s1'' ''/srv/a'' [] proc_init)))"
    by (simp add: start_defs project_bad_install_def project_main_def proc_init_def)
  have e: "show_code (Some 1) = ''1''"
    by (simp add: show_int_def show_nat.simps digit_char_def)
  from C3_install_failure[OF a b c, of "''s1''" "''/srv/a''" "[]" proc_init] d e
  show ?thesis by (simp add: proc_init_def)
qed

text \<open>
  C4. When \<open>startProcess\<close> returns a handle id, the registry maps that id to the one child
  the call spawned for the project; and the close listener and the error listener of that
  handle each remove its entry, so the handle is absent once the exit event is handled.
\<close>

theorem C4_registry_tracks_process:
  assumes "startProcess env serverId rootPath envVars w = (Inr h, w', t)"
  shows "(\<exists>c. children_of t = [c] \<and> processes w' h = Some c) \<and>
    (\<forall>v code. processes (fst (on_child_event h (Close code) v)) h = None) \<and>
    (\<forall>v e. processes (fst (on_child_event h (ProcessError e) v)) h = None)"
proof -
  from startProcess_success[OF assms] obtain dir script t' w1 where
    "w' = w1\<lparr>processes := (processes w1)(h \<mapsto> spawned w1), spawned := Suc (spawned w1)\<rparr>"
    "t = t' @ [SpawnChild (spawned w1) (hd (split CHR '' '' script))
                 (tl (split CHR '' '' script)) dir envVars]"
    "\<not> list_ex is_SpawnChild t'"
    by blast
  then have "children_of t = [spawned w1] \<and> processes w' h = Some (spawned w1)"
    by (simp add: children_of_append children_of_none)
  then show ?thesis by simp
qed

theorem C4_registry_tracks_process_witness:
  "(\<exists>c. children_of (snd (snd (startProcess project_bot ''s1'' ''/srv/a'' [] proc_init))) = [c] \<and>
        processes (fst (snd (startProcess project_bot ''s1'' ''/srv/a'' [] proc_init))) ''s1-1000''
          = Some c) \<and>
   processes (fst (on_child_event ''s1-1000'' (Close (Some 0))
      (fst (snd (startProcess project_bot ''s1'' ''/srv/a'' [] proc_init))))) ''s1-1000'' = None \<and>
   processes (fst (on_child_event ''s1-1000'' (ProcessError (Error ''spawn node ENOENT''))
      (fst (snd (startProcess project_bot ''s1'' ''/srv/a'' [] proc_init))))) ''s1-1000'' = None"
  using C4_registry_tracks_process[OF project_bot_start[of proc_init]]
  by (simp add: project_bot_start)

text \<open>
  C5. \<open>stopProcess\<close> never throws. On a handle the registry maps it kills the mapped
  process and removes the entry at once; on any other handle it does nothing and the
  registry is what it was.
\<close>

theorem C5_stopProcess:
  "fst (stopProcess h w) = Inr () \<and>
   (processes w h = Some p \<longrightarrow>
      snd (stopProcess h w) = (w\<lparr>processes := (processes w)(h := None)\<rparr>, [Kill p])) \<and>
   (processes w h = None \<longrightarrow> snd (stopProcess h w) = (w, []))"
  by (simp add: stopProcess_def split: option.splits)

theorem C5_stopProcess_witness:
  "stopProcess ''s1-1000'' \<lparr>processes = [''s1-1000'' \<mapsto> 0], spawned = 1\<rparr> =
     (Inr (), \<lparr>processes = [''s1-1000'' \<mapsto> 0](''s1-1000'' := None), spawned = 1\<rparr>, [Kill 0]) \<and>
   stopProcess ''s2-7'' \<lparr>processes = [''s1-1000'' \<mapsto> 0], spawned = 1\<rparr> =
     (Inr (), \<lparr>processes = [''s1-1000'' \<mapsto> 0], spawned = 1\<rparr>, [])"
  using
    C5_stopProcess[of "''s1-1000''" "\<lparr>processes = [''s1-1000'' \<mapsto> 0], spawned = 1\<rparr>" 0]
    C5_stopProcess[of "''s2-7''" "\<lparr>processes = [''s1-1000'' \<mapsto> 0], spawned = 1\<rparr>" 0]
  by (simp add: prod_eq_iff)

text \<open>
  C7, as amended. Every handle id \<open>startProcess\<close> returns is the server id, a dash and the
  decimal spawn timestamp; two such ids are equal exactly when the server ids are equal
  and the timestamps are equal, so two successful starts of one server yield different
  handle ids whenever their timestamps differ; and in every state the service reaches by
  starts, stops and child events, two different handle ids never hold the same process.
\<close>

theorem C7_handle_ids:
  "(startProcess env serverId rootPath envVars w = (Inr h, w', t) \<longrightarrow>
      h = serverId @ ''-'' @ show_nat (now env)) \<and>
   (serverId @ ''-'' @ show_nat n = serverId' @ ''-'' @ show_nat n'
      \<longleftrightarrow> serverId = serverId' \<and> n = n') \<and>
   (\<forall>k k' c c'. k \<noteq> k' \<and> processes (proc_run ops) k = Some c \<and>
       processes (proc_run ops) k' = Some c' \<longrightarrow> c \<noteq> c')"
proof (intro conjI impI allI)
  assume "startProcess env serverId rootPath envVars w = (Inr h, w', t)"
  from startProcess_success[OF this] show "h = serverId @ ''-'' @ show_nat (now env)" by blast
next
  show "serverId @ ''-'' @ show_nat n = serverId' @ ''-'' @ show_nat n'
      \<longleftrightarrow> serverId = serverId' \<and> n = n'" by (rule handle_id_inj)
next
  fix k k' c c'
  assume a: "k \<noteq> k' \<and> processes (proc_run ops) k = Some c \<and> processes (proc_run ops) k' = Some c'"
  have "inj_on (processes (proc_run ops)) (dom (processes (proc_run ops)))"
    using proc_run_registry_ok[of ops] by (simp add: registry_ok_def)
  with a show "c \<noteq> c'" by (auto simp: inj_on_def dom_def)
qed

theorem C7_handle_ids_witness:
  "fst (startProcess project_bot ''s1'' ''/srv/a'' [] proc_init) = Inr (''s1'' @ ''-'' @ show_nat 1000) \<and>
   ''s1'' @ ''-'' @ show_nat 1000 \<noteq> ''s1'' @ ''-'' @ show_nat 1001 \<and>
   processes (proc_run [Start project_bot ''s1'' ''/srv/a'' [],
       Start (project_bot\<lparr>now := 1001\<rparr>) ''s1'' ''/srv/a'' []]) ''s1-1000'' = Some 0 \<and>
   processes (proc_run [Start project_bot ''s1'' ''/srv/a'' [],
       Start (project_bot\<lparr>now := 1001\<rparr>) ''s1'' ''/srv/a'' []]) ''s1-1001'' = Some 1"
  using C7_handle_ids[of project_bot "''s1''" "''/srv/a''" "[]" proc_init "''s1-1000''"
      "fst (snd (startProcess project_bot ''s1'' ''/srv/a'' [] proc_init))"
      "snd (snd (startProcess project_bot ''s1'' ''/srv/a'' [] proc_init))" 1000 "''s1''" 1001
      "[Start project_bot ''s1'' ''/srv/a'' [], Start (project_bot\<lparr>now := 1001\<rparr>) ''s1'' ''/srv/a'' []]"]
  by (simp add: proc_run_def proc_init_def start_defs project_bot_def show_nat.simps digit_char_def)

text \<open>
  The claim as first stated fails when one server is started twice within one millisecond:
  both calls return the handle id \<^verbatim>\<open>s1-1000\<close>, the second registration replaces the first,
  and the registry holds one entry while two processes were spawned.
\<close>

theorem C7_same_millisecond_counterexample:
  "fst (startProcess project_bot ''s1'' ''/srv/a'' [] proc_init) = Inr ''s1-1000'' \<and>
   fst (startProcess project_bot ''s1'' ''/srv/a'' []
         (fst (snd (startProcess project_bot ''s1'' ''/srv/a'' [] proc_init)))) = Inr ''s1-1000'' \<and>
   children_of (snd (snd (startProcess project_bot ''s1'' ''/srv/a'' [] proc_init))) = [0] \<and>
   children_of (snd (snd (startProcess project_bot ''s1'' ''/srv/a'' []
         (fst (snd (startProcess project_bot ''s1'' ''/srv/a'' [] proc_init)))))) = [1] \<and>
   processes (fst (snd (startProcess project_bot ''s1'' ''/srv/a'' []
         (fst (snd (startProcess project_bot ''s1'' ''/srv/a'' [] proc_init)))))) =
     [''s1-1000'' \<mapsto> 1]"
  by (simp add: project_bot_start proc_init_def)

text \<open>
  C9. Every chunk \<^verbatim>\<open>npm install\<close> writes goes to the log sink as \<^verbatim>\<open>[npm] \<close> followed by the
  trimmed chunk, inside \<open>startProcess\<close> between the install notice and the start notice;
  every chunk of the process's stdout as \<^verbatim>\<open>[stdout] \<close> and of its stderr as
  \<^verbatim>\<open>[stderr] \<close> followed by the trimmed chunk; and the close of the process as the
  untagged line "Process exited with code N".
\<close>

theorem C9_log_tags:
  "(packageJson env \<noteq> NoManifest \<longrightarrow>
      logs_of (snd (snd (installDependencies env dir w))) =
        [''Checking for package.json and dependencies...'', ''Running npm install...'']
        @ map (\<lambda>data. ''[npm] '' @ trim data) (install_output env)) \<and>
   (packageJson env \<noteq> NoManifest \<and>
    startProcess env serverId rootPath envVars w = (Inr h, w', t) \<longrightarrow>
      (\<exists>before script. logs_of t =
         before @ map (\<lambda>data. ''[npm] '' @ trim data) (install_output env)
         @ [''Starting process: '' @ script])) \<and>
   logs_of (snd (on_child_event h (StdoutData d) v)) = [''[stdout] '' @ trim d] \<and>
   logs_of (snd (on_child_event h (StderrData d) v)) = [''[stderr] '' @ trim d] \<and>
   logs_of (snd (on_child_event h (Close code) v)) = [''Process exited with code '' @ show_code code]"
proof (intro conjI impI)
  assume "packageJson env \<noteq> NoManifest"
  then show "logs_of (snd (snd (installDependencies env dir w))) =
        [''Checking for package.json and dependencies...'', ''Running npm install...'']
        @ map (\<lambda>data. ''[npm] '' @ trim data) (install_output env)"
    by (simp add: installDependencies_def Let_def logs_of_map_Log logs_of_append
        split: install_end.splits)
next
  assume a: "packageJson env \<noteq> NoManifest \<and>
    startProcess env serverId rootPath envVars w = (Inr h, w', t)"
  then have "startProcess_try env serverId rootPath envVars w = (Inr h, w', t)"
    by (simp add: startProcess_Inr)
  from startProcess_try_Inr[OF this] obtain files dir' t1 script t2 w1 t3 t4 where
    i: "installDependencies env dir' w = (Inr (), w1, t3)" and
    l: "launch env serverId script dir' envVars w1 = (Inr h, w', t4)" and
    t: "t = Log ''Analyzing project structure...'' # t1 @ t2 @ t3 @ t4"
    by blast
  from a i have t3: "logs_of t3 =
        [''Checking for package.json and dependencies...'', ''Running npm install...'']
        @ map (\<lambda>data. ''[npm] '' @ trim data) (install_output env)"
    by (auto simp: installDependencies_def Let_def logs_of_map_Log logs_of_append
        split: install_end.splits if_splits)
  from launch_Inr[OF l] have t4: "logs_of t4 = [''Starting process: '' @ script]" by simp
  have "logs_of t = (''Analyzing project structure...'' # logs_of t1 @ logs_of t2 @
      [''Checking for package.json and dependencies...'', ''Running npm install...''])
      @ map (\<lambda>data. ''[npm] '' @ trim data) (install_output env)
      @ [''Starting process: '' @ script]"
    by (simp add: t logs_of_append t3 t4)
  then show "\<exists>before script. logs_of t =
         before @ map (\<lambda>data. ''[npm] '' @ trim data) (install_output env)
         @ [''Starting process: '' @ script]" by blast
qed simp_all

theorem C9_log_tags_witness:
  "logs_of (snd (snd (installDependencies project_main (Root ''/srv/a'') proc_init))) =
     [''Checking for package.json and dependencies...'', ''Running npm install...'',
      ''[npm] added 1 package''] \<and>
   logs_of (snd (on_child_event ''s1-1000'' (StdoutData (''hi'' @ [CHR 0x0A])) proc_init))
     = [''[stdout] hi''] \<and>
   logs_of (snd (on_child_event ''s1-1000'' (StderrData '' warn '') proc_init))
     = [''[stderr] warn''] \<and>
   logs_of (snd (on_child_event ''s1-1000'' (Close (Some 0)) proc_init))
     = [''Process exited with code 0'']"
  using C9_log_tags[of project_main "Root ''/srv/a''" proc_init "''s1''" "''/srv/a''" "[]"
      "''s1-1000''" "fst (snd (startProcess project_main ''s1'' ''/srv/a'' [] proc_init))"
      "snd (snd (startProcess project_main ''s1'' ''/srv/a'' [] proc_init))"
      "''hi'' @ [CHR 0x0A]" proc_init "Some 0"]
    C9_log_tags[of project_main "Root ''/srv/a''" proc_init "''s1''" "''/srv/a''" "[]"
      "''s1-1000''" "fst (snd (startProcess project_main ''s1'' ''/srv/a'' [] proc_init))"
      "snd (snd (startProcess project_main ''s1'' ''/srv/a'' [] proc_init))"
      "'' warn ''" proc_init "Some 0"]
  by (simp add: project_main_def trim_def is_space_def show_int_def show_nat.simps digit_char_def)

section \<open>Facts about the log sink\<close>

lemma sink_ok_init: "sink_ok sink_init"
  by (simp add: sink_ok_def sink_init_def)

lemma sink_ok_fresh:
  assumes "sink_ok s" and "serverConnections s sid = Some conns"
  shows "accepted s \<notin> set conns"
  using assms unfolding sink_ok_def by fastforce

lemma on_connection_ok:
  assumes "sink_ok s"
  shows "sink_ok (on_connection serverId s)"
proof (cases serverId)
  case None
  with assms show ?thesis
    by (fastforce simp: on_connection_def sink_ok_def Let_def)
next
  case (Some sid)
  show ?thesis
  proof (cases "sid = []")
    case True
    with Some assms show ?thesis
      by (fastforce simp: on_connection_def sink_ok_def Let_def)
  next
    case False
    let ?old = "case serverConnections s sid of None \<Rightarrow> [] | Some c \<Rightarrow> c"
    have fresh: "\<And>k conns. serverConnections s k = Some conns \<Longrightarrow> accepted s \<notin> set conns"
      using assms sink_ok_fresh by blast
    have old: "distinct ?old" "\<forall>c \<in> set ?old. c < accepted s \<and> close_listener s c = Some sid"
      "accepted s \<notin> set ?old"
    proof (atomize (full), cases "serverConnections s sid")
      case None
      then show "distinct ?old \<and> (\<forall>c \<in> set ?old. c < accepted s \<and> close_listener s c = Some sid)
        \<and> accepted s \<notin> set ?old" by simp
    next
      case (Some conns)
      with assms fresh[OF Some]
      show "distinct ?old \<and> (\<forall>c \<in> set ?old. c < accepted s \<and> close_listener s c = Some sid)
        \<and> accepted s \<notin> set ?old"
        unfolding sink_ok_def by simp
    qed
    have eq: "on_connection serverId s =
      s\<lparr>readyState := (readyState s)(accepted s := OPEN), accepted := Suc (accepted s),
        serverConnections := (serverConnections s)(sid \<mapsto> ?old @ [accepted s]),
        close_listener := (close_listener s)(accepted s \<mapsto> sid)\<rparr>"
    proof -
      have sa: "set_add ?old (accepted s) = ?old @ [accepted s]"
        using old(3) unfolding set_add_def by (rule if_not_P)
      show ?thesis
        unfolding on_connection_def Let_def Some option.case sa using False by simp
    qed
    show ?thesis
      unfolding eq sink_ok_def
    proof (intro allI impI)
      fix k conns
      assume a: "serverConnections
        (s\<lparr>readyState := (readyState s)(accepted s := OPEN), accepted := Suc (accepted s),
        serverConnections := (serverConnections s)(sid \<mapsto> ?old @ [accepted s]),
        close_listener := (close_listener s)(accepted s \<mapsto> sid)\<rparr>) k = Some conns"
      show "distinct conns \<and> (\<forall>c\<in>set conns. c < accepted
        (s\<lparr>readyState := (readyState s)(accepted s := OPEN), accepted := Suc (accepted s),
        serverConnections := (serverConnections s)(sid \<mapsto> ?old @ [accepted s]),
        close_listener := (close_listener s)(accepted s \<mapsto> sid)\<rparr>) \<and>
        close_listener (s\<lparr>readyState := (readyState s)(accepted s := OPEN), accepted := Suc (accepted s),
        serverConnections := (serverConnections s)(sid \<mapsto> ?old @ [accepted s]),
        close_listener := (close_listener s)(accepted s \<mapsto> sid)\<rparr>) c = Some k)"
      proof (cases "k = sid")
        case True
        with a have "conns = ?old @ [accepted s]" by simp
        with old True show ?thesis by (auto simp: less_Suc_eq)
      next
        case False
        with a have k: "serverConnections s k = Some conns" by simp
        with assms have "distinct conns" "\<forall>c\<in>set conns. c < accepted s \<and> close_listener s c = Some k"
          unfolding sink_ok_def by blast+
        moreover from k fresh have "accepted s \<notin> set conns" by blast
        ultimately show ?thesis by (auto simp: less_Suc_eq)
      qed
    qed
  qed
qed

lemma on_ws_close_ok:
  assumes "sink_ok s"
  shows "sink_ok (on_ws_close ws s)"
  using assms unfolding on_ws_close_def sink_ok_def Let_def set_delete_def
  by (auto split: option.splits)

lemma broadcastLog_unchanged: "fst (broadcastLog timestamp serverId message s) = s"
  by (simp add: broadcastLog_def Let_def split: option.splits)

lemma sink_step_ok: "sink_ok s \<Longrightarrow> sink_ok (sink_step ev s)"
proof (cases ev)
  case (Transport ws st)
  assume "sink_ok s"
  with Transport show ?thesis by (simp add: sink_ok_def)
qed (simp_all add: on_connection_ok on_ws_close_ok broadcastLog_unchanged)

lemma foldl_sink_ok: "sink_ok s \<Longrightarrow> sink_ok (foldl (\<lambda>s ev. sink_step ev s) s evs)"
  by (induction evs arbitrary: s) (simp_all add: sink_step_ok)

lemma sink_run_ok: "sink_ok (sink_run evs)"
  unfolding sink_run_def by (rule foldl_sink_ok) (rule sink_ok_init)

lemma sink_ok_one_topic:
  assumes "sink_ok s" and "serverConnections s k = Some conns" and "c \<in> set conns"
    and "serverConnections s k' = Some conns'" and "c \<in> set conns'"
  shows "k = k'"
  using assms unfolding sink_ok_def by (metis option.inject)

lemma log_envelope_text:
  "log_envelope timestamp message =
     ''{'' @ json_quote ''type'' @ '':'' @ json_quote ''log'' @ '','' @
     json_quote ''timestamp'' @ '':'' @ json_quote timestamp @ '','' @
     json_quote ''message'' @ '':'' @ json_quote message @ ''}''"
  by (simp add: log_envelope_def JSON_stringify_def)

lemmas sink_defs = sink_run_def sink_init_def on_connection_def on_ws_close_def set_add_def
  set_delete_def broadcastLog_def Let_def

section \<open>Claims about the log sink\<close>

text \<open>
  C2. In every state the sink reaches, \<open>broadcastLog\<close> serializes the envelope
  \<^verbatim>\<open>{"type":"log","timestamp":<the clock's ISO string>,"message":<message>}\<close> and sends it
  once to each connection that is registered in the set of the topic id and is OPEN, and
  to nothing else: a registered connection that is not OPEN is skipped, a connection
  registered under another topic id receives nothing, and the sink (the sets included) is
  what it was.
\<close>

theorem C2_broadcastLog:
  "fst (broadcastLog timestamp topicId message (sink_run evs)) = sink_run evs \<and>
   (\<forall>c p. (c, p) \<in> set (snd (broadcastLog timestamp topicId message (sink_run evs))) \<longleftrightarrow>
      (\<exists>conns. serverConnections (sink_run evs) topicId = Some conns \<and> c \<in> set conns) \<and>
      readyState (sink_run evs) c = OPEN \<and> p = log_envelope timestamp message) \<and>
   distinct (map fst (snd (broadcastLog timestamp topicId message (sink_run evs)))) \<and>
   (\<forall>other conns c. other \<noteq> topicId \<and> serverConnections (sink_run evs) other = Some conns \<and>
      c \<in> set conns \<longrightarrow>
      c \<notin> fst ` set (snd (broadcastLog timestamp topicId message (sink_run evs)))) \<and>
   log_envelope timestamp message =
     ''{'' @ json_quote ''type'' @ '':'' @ json_quote ''log'' @ '','' @
     json_quote ''timestamp'' @ '':'' @ json_quote timestamp @ '','' @
     json_quote ''message'' @ '':'' @ json_quote message @ ''}''"
proof (intro conjI allI impI)
  show "fst (broadcastLog timestamp topicId message (sink_run evs)) = sink_run evs"
    by (rule broadcastLog_unchanged)
next
  fix c p
  show "(c, p) \<in> set (snd (broadcastLog timestamp topicId message (sink_run evs))) \<longleftrightarrow>
      (\<exists>conns. serverConnections (sink_run evs) topicId = Some conns \<and> c \<in> set conns) \<and>
      readyState (sink_run evs) c = OPEN \<and> p = log_envelope timestamp message"
    by (auto simp: broadcastLog_def Let_def split: option.splits)
next
  have "sink_ok (sink_run evs)" by (rule sink_run_ok)
  then show "distinct (map fst (snd (broadcastLog timestamp topicId message (sink_run evs))))"
    by (auto simp: broadcastLog_def Let_def sink_ok_def comp_def split: option.splits)
next
  fix other conns c
  assume a: "other \<noteq> topicId \<and> serverConnections (sink_run evs) other = Some conns \<and> c \<in> set conns"
  show "c \<notin> fst ` set (snd (broadcastLog timestamp topicId message (sink_run evs)))"
  proof
    assume "c \<in> fst ` set (snd (broadcastLog timestamp topicId message (sink_run evs)))"
    then obtain conns' where "serverConnections (sink_run evs) topicId = Some conns'" "c \<in> set conns'"
      by (auto simp: broadcastLog_def Let_def split: option.splits)
    with a sink_ok_one_topic[OF sink_run_ok, of evs other conns c topicId conns']
    show False by simp
  qed
next
  show "log_envelope timestamp message =
     ''{'' @ json_quote ''type'' @ '':'' @ json_quote ''log'' @ '','' @
     json_quote ''timestamp'' @ '':'' @ json_quote timestamp @ '','' @
     json_quote ''message'' @ '':'' @ json_quote message @ ''}''"
    by (rule log_envelope_text)
qed

theorem C2_broadcastLog_witness:
  "fst (broadcastLog ''2024-05-01T10:00:00.000Z'' ''s1'' ''hi'' (sink_run sink_events)) = sink_run sink_events \<and>
   snd (broadcastLog ''2024-05-01T10:00:00.000Z'' ''s1'' ''hi'' (sink_run sink_events)) =
     [(0, log_envelope ''2024-05-01T10:00:00.000Z'' ''hi'')] \<and>
   serverConnections (sink_run sink_events) ''s1'' = Some [0, 2] \<and>
   serverConnections (sink_run sink_events) ''s2'' = Some [1] \<and>
   readyState (sink_run sink_events) 2 = CLOSING \<and>
   log_envelope ''2024-05-01T10:00:00.000Z'' ''hi'' =
     ''{'' @ [dquote] @ ''type'' @ [dquote] @ '':'' @ [dquote] @ ''log'' @ [dquote] @ '','' @
     [dquote] @ ''timestamp'' @ [dquote] @ '':'' @ [dquote] @ ''2024-05-01T10:00:00.000Z'' @ [dquote] @ '','' @
     [dquote] @ ''message'' @ [dquote] @ '':'' @ [dquote] @ ''hi'' @ [dquote] @ ''}''"
  using C2_broadcastLog[of "''2024-05-01T10:00:00.000Z''" "''s1''" "''hi''" sink_events]
  by (simp add: sink_events_def sink_defs json_quote_def json_escape_def
      dquote_def backslash_def numeral_2_eq_2)

section \<open>Facts about the handlers\<close>

lemma getServer_updateServer:
  "getServer (updateServer rows ident pid st) ident =
     map_option (\<lambda>r. r\<lparr>srv_processId := pid, srv_status := st\<rparr>) (getServer rows ident)"
  by (induction rows) (simp_all add: getServer_def updateServer_def)

lemma project_empty_start:
  "startProcess project_empty ''a'' ''/app/servers/a'' [] proc_init =
     (Inl (Error (''Failed to start process: Error: '' @ noEntryPlain)), proc_init,
      [Log ''Analyzing project structure...'',
       Log ''Found files in root directory: README.md'',
       Log ''No package.json found, looking for common entry points''])"
  by (simp add: start_defs project_empty_def project_bot_def Error_def noEntryPlain_def)

lemma create_handler_servers:
  "servers (fst (snd (create_handler env session b a))) = servers a \<or>
   (\<exists>uid row. srv_userId row = uid \<and>
      length (filter (\<lambda>r. srv_userId r = uid) (servers a)) < 3 \<and>
      servers (fst (snd (create_handler env session b a))) = servers a @ [row])"
  by (auto simp: create_handler_def Let_def createServerDirectory_def createServer_def
      getServersByUserId_def split: option.splits)

lemma create_handler_cap:
  assumes "\<forall>u. length (filter (\<lambda>r. srv_userId r = u) (servers a)) \<le> 3"
  shows "\<forall>u. length (filter (\<lambda>r. srv_userId r = u)
           (servers (fst (snd (create_handler env session b a))))) \<le> 3"
proof
  fix u
  from create_handler_servers[of env session b a] show
    "length (filter (\<lambda>r. srv_userId r = u)
           (servers (fst (snd (create_handler env session b a))))) \<le> 3"
  proof
    assume "servers (fst (snd (create_handler env session b a))) = servers a"
    with assms show ?thesis by simp
  next
    assume "\<exists>uid row. srv_userId row = uid \<and>
      length (filter (\<lambda>r. srv_userId r = uid) (servers a)) < 3 \<and>
      servers (fst (snd (create_handler env session b a))) = servers a @ [row]"
    then obtain row where r: "length (filter (\<lambda>r. srv_userId r = srv_userId row) (servers a)) < 3"
      "servers (fst (snd (create_handler env session b a))) = servers a @ [row]" by blast
    show ?thesis
    proof (cases "srv_userId row = u")
      case True
      with r show ?thesis by auto
    next
      case False
      with r assms show ?thesis by simp
    qed
  qed
qed

lemma create_run_cap:
  "\<forall>u. length (filter (\<lambda>r. srv_userId r = u) (servers a)) \<le> 3 \<Longrightarrow>
   \<forall>u. length (filter (\<lambda>r. srv_userId r = u) (servers (create_run reqs a))) \<le> 3"
proof (induction reqs arbitrary: a)
  case Nil
  then show ?case by simp
next
  case (Cons req reqs)
  obtain env session b where req: "req = (env, session, b)" by (cases req)
  from Cons.prems have "\<forall>u. length (filter (\<lambda>r. srv_userId r = u)
           (servers (fst (snd (create_handler env session b a))))) \<le> 3"
    by (rule create_handler_cap)
  from Cons.IH[OF this] show ?case by (simp add: req)
qed

lemma shared_counts:
  "length (filter (\<lambda>r. srv_userId r = ''u1'') (servers app_shared)) = 3"
  "length (filter (\<lambda>r. srv_userId r = ''u2'') (servers app_shared)) = 1"
  by (simp_all add: app_shared_def row_def)

section \<open>Claims about the handlers\<close>

text \<open>
  C6, as amended. When the start handler reaches \<open>startProcess\<close> for a server the session
  owns and \<open>startProcess\<close> throws, the handler catches the error, writes the status
  \<^verbatim>\<open>stopped\<close> (the status a stop writes, not \<^verbatim>\<open>error\<close>) together with a null process
  handle to the record, reports "Start failed" to the log sink, and answers 500 with the
  error's message.
\<close>

theorem C6_failed_start_marks_stopped:
  assumes "truthy session" and "getServer (servers a) ident = Some server"
    and "Some (srv_userId server) = session" and "root_exists env"
    and "(case root_moved env of Some listing \<Rightarrow> listing | None \<Rightarrow> root_dir env) = Inr files"
    and "files \<noteq> []"
    and "startProcess env (srv_id server) (srv_rootPath server) (srv_envVars server) (procs a)
           = (Inl e, w, t)"
  shows "fst (start_handler env session ident a) = Response 500 (Message (err_message e)) \<and>
     servers (fst (snd (start_handler env session ident a)))
       = updateServer (servers a) ident None ''stopped'' \<and>
     getServer (servers (fst (snd (start_handler env session ident a)))) ident
       = Some (server\<lparr>srv_processId := None, srv_status := ''stopped''\<rparr>) \<and>
     last (snd (snd (start_handler env session ident a)))
       = BroadcastLog ident (''Start failed: '' @ err_message e)"
  using assms
  by (simp add: start_handler_def start_failed_def Let_def getServer_updateServer)

theorem C6_failed_start_marks_stopped_witness:
  "fst (start_handler project_empty (Some ''u1'') ''a'' app_two) =
     Response 500 (Message (''Failed to start process: Error: '' @ noEntryPlain)) \<and>
   servers (fst (snd (start_handler project_empty (Some ''u1'') ''a'' app_two)))
     = updateServer (servers app_two) ''a'' None ''stopped'' \<and>
   getServer (servers (fst (snd (start_handler project_empty (Some ''u1'') ''a'' app_two)))) ''a''
     = Some (row ''a'') \<and>
   last (snd (snd (start_handler project_empty (Some ''u1'') ''a'' app_two)))
     = BroadcastLog ''a'' (''Start failed: Failed to start process: Error: '' @ noEntryPlain)"
proof -
  have 1: "truthy (Some ''u1'')" by simp
  have 2: "getServer (servers app_two) ''a'' = Some (row ''a'')"
    by (simp add: getServer_def app_two_def row_def)
  have 3: "Some (srv_userId (row ''a'')) = Some ''u1''" by (simp add: row_def)
  have 4: "root_exists project_empty" by (simp add: project_empty_def project_bot_def)
  have 5: "(case root_moved project_empty of Some listing \<Rightarrow> listing | None \<Rightarrow> root_dir project_empty)
      = Inr [''README.md'']" by (simp add: project_empty_def project_bot_def)
  have 6: "[''README.md''] \<noteq> []" by simp
  have 7: "startProcess project_empty (srv_id (row ''a'')) (srv_rootPath (row ''a''))
      (srv_envVars (row ''a'')) (procs app_two) =
     (Inl (Error (''Failed to start process: Error: '' @ noEntryPlain)), proc_init,
      [Log ''Analyzing project structure...'',
       Log ''Found files in root directory: README.md'',
       Log ''No package.json found, looking for common entry points''])"
    using project_empty_start by (simp add: row_def app_two_def)
  have 8: "row ''a''\<lparr>srv_processId := None, srv_status := ''stopped''\<rparr> = row ''a''"
    by (simp add: row_def)
  from C6_failed_start_marks_stopped[OF 1 2 3 4 5 6 7] show ?thesis
    by (simp add: 8 Error_def getServer_updateServer 2)
qed

text \<open>
  The claim as first stated fails: a start that finds no entry point leaves a stopped
  server's record exactly as it was, as a stop request does, so no status tells the
  failed start apart.
\<close>

theorem C6_stopped_not_error_counterexample:
  "fst (start_handler project_empty (Some ''u1'') ''a'' app_two) =
     Response 500 (Message (''Failed to start process: Error: '' @ noEntryPlain)) \<and>
   servers (fst (snd (start_handler project_empty (Some ''u1'') ''a'' app_two))) = servers app_two \<and>
   map_option srv_status (getServer (servers (fst (snd (start_handler project_empty (Some ''u1'') ''a'' app_two)))) ''a'')
     = Some ''stopped'' \<and>
   servers (fst (snd (stop_handler (Some ''u1'') ''a'' app_two))) = servers app_two"
  by (simp add: start_handler_def start_failed_def stop_handler_def start_defs project_empty_def project_bot_def
      app_two_def row_def getServer_def updateServer_def Error_def noEntryPlain_def)

text \<open>
  C8. For an authenticated user, a creation request is answered 400 "Server limit reached"
  exactly when the rows of the table owned by that user are 3 or more, whatever other
  users own, and then no record and no directory is created; with fewer than 3 the request
  goes on to create the server: the directory is made, and a body with a name of 1 to 50
  characters adds the record, owned by the user, and is answered with it. So no sequence
  of creation requests takes any owner past 3 servers: a fourth attempt is rejected.
\<close>

theorem C8_server_limit:
  assumes "session = Some uid" and "uid \<noteq> []"
  shows
   "(fst (create_handler env session b a)
       = Response 400 (Message ''Server limit reached (maximum 3 servers)'')
     \<longleftrightarrow> 3 \<le> length (filter (\<lambda>r. srv_userId r = uid) (servers a))) \<and>
    (3 \<le> length (filter (\<lambda>r. srv_userId r = uid) (servers a)) \<longrightarrow>
       snd (create_handler env session b a) = (a, [])) \<and>
    (length (filter (\<lambda>r. srv_userId r = uid) (servers a)) < 3 \<longrightarrow>
       dirs (fst (snd (create_handler env session b a))) =
         dirs a @ [serversRoot env @ ''/server-'' @ show_nat (dir_now env) @ ''-'' @ dir_random env] \<and>
       (\<forall>name. body_name b = Some name \<and> 1 \<le> length name \<and> length name \<le> 50 \<longrightarrow>
          fst (create_handler env session b a) =
            Response 200 (ServerJson
              \<lparr>srv_id = new_id env, srv_name = name,
               srv_status = or_else (body_status b) ''stopped'', srv_userId = uid,
               srv_processId = None,
               srv_rootPath = serversRoot env @ ''/server-'' @ show_nat (dir_now env) @ ''-''
                                @ dir_random env,
               srv_envVars = (case body_envVars b of None \<Rightarrow> [] | Some e \<Rightarrow> e),
               srv_createdAt = db_now env\<rparr>) \<and>
          servers (fst (snd (create_handler env session b a))) =
            servers a @
              [\<lparr>srv_id = new_id env, srv_name = name,
                srv_status = or_else (body_status b) ''stopped'', srv_userId = uid,
                srv_processId = None,
                srv_rootPath = serversRoot env @ ''/server-'' @ show_nat (dir_now env) @ ''-''
                                 @ dir_random env,
                srv_envVars = (case body_envVars b of None \<Rightarrow> [] | Some e \<Rightarrow> e),
                srv_createdAt = db_now env\<rparr>])) \<and>
    ((\<forall>u. length (filter (\<lambda>r. srv_userId r = u) (servers a)) \<le> 3) \<longrightarrow>
       (\<forall>u. length (filter (\<lambda>r. srv_userId r = u) (servers (create_run reqs a))) \<le> 3))"
proof (intro conjI)
  show "(fst (create_handler env session b a)
       = Response 400 (Message ''Server limit reached (maximum 3 servers)'')
     \<longleftrightarrow> 3 \<le> length (filter (\<lambda>r. srv_userId r = uid) (servers a)))"
    using assms
    by (auto simp: create_handler_def limitReached_def Let_def createServerDirectory_def
        getServersByUserId_def split: option.splits)
  show "3 \<le> length (filter (\<lambda>r. srv_userId r = uid) (servers a)) \<longrightarrow>
       snd (create_handler env session b a) = (a, [])"
    using assms by (simp add: create_handler_def getServersByUserId_def)
  show "length (filter (\<lambda>r. srv_userId r = uid) (servers a)) < 3 \<longrightarrow>
       dirs (fst (snd (create_handler env session b a))) =
         dirs a @ [serversRoot env @ ''/server-'' @ show_nat (dir_now env) @ ''-'' @ dir_random env] \<and>
       (\<forall>name. body_name b = Some name \<and> 1 \<le> length name \<and> length name \<le> 50 \<longrightarrow>
          fst (create_handler env session b a) =
            Response 200 (ServerJson
              \<lparr>srv_id = new_id env, srv_name = name,
               srv_status = or_else (body_status b) ''stopped'', srv_userId = uid,
               srv_processId = None,
               srv_rootPath = serversRoot env @ ''/server-'' @ show_nat (dir_now env) @ ''-''
                                @ dir_random env,
               srv_envVars = (case body_envVars b of None \<Rightarrow> [] | Some e \<Rightarrow> e),
               srv_createdAt = db_now env\<rparr>) \<and>
          servers (fst (snd (create_handler env session b a))) =
            servers a @
              [\<lparr>srv_id = new_id env, srv_name = name,
                srv_status = or_else (body_status b) ''stopped'', srv_userId = uid,
                srv_processId = None,
                srv_rootPath = serversRoot env @ ''/server-'' @ show_nat (dir_now env) @ ''-''
                                 @ dir_random env,
                srv_envVars = (case body_envVars b of None \<Rightarrow> [] | Some e \<Rightarrow> e),
                srv_createdAt = db_now env\<rparr>])"
    using assms
    by (auto simp: create_handler_def Let_def createServerDirectory_def createServer_def
        getServersByUserId_def split: option.splits)
  show "(\<forall>u. length (filter (\<lambda>r. srv_userId r = u) (servers a)) \<le> 3) \<longrightarrow>
       (\<forall>u. length (filter (\<lambda>r. srv_userId r = u) (servers (create_run reqs a))) \<le> 3)"
    using create_run_cap[of a reqs] by blast
qed

theorem C8_server_limit_witness:
  "fst (create_handler request_env (Some ''u1'') bot_body app_shared)
     = Response 400 (Message ''Server limit reached (maximum 3 servers)'') \<and>
   snd (create_handler request_env (Some ''u1'') bot_body app_shared) = (app_shared, []) \<and>
   fst (create_handler request_env (Some ''u2'') bot_body app_shared)
     = Response 200 (ServerJson
         \<lparr>srv_id = ''d'', srv_name = ''bot'', srv_status = ''stopped'', srv_userId = ''u2'',
          srv_processId = None, srv_rootPath = ''/app/servers/server-1000-k3j9x0q1z'',
          srv_envVars = [], srv_createdAt = 1001\<rparr>) \<and>
   servers (fst (snd (create_handler request_env (Some ''u2'') bot_body app_shared)))
     = servers app_shared @
         [\<lparr>srv_id = ''d'', srv_name = ''bot'', srv_status = ''stopped'', srv_userId = ''u2'',
           srv_processId = None, srv_rootPath = ''/app/servers/server-1000-k3j9x0q1z'',
           srv_envVars = [], srv_createdAt = 1001\<rparr>] \<and>
   dirs (fst (snd (create_handler request_env (Some ''u2'') bot_body app_shared)))
     = [''/app/servers/server-1000-k3j9x0q1z''] \<and>
   fst (create_handler (request_env\<lparr>new_id := ''f''\<rparr>) (Some ''u2'') bot_body
          (create_run [(request_env, Some ''u2'', bot_body),
                       (request_env\<lparr>new_id := ''e''\<rparr>, Some ''u2'', bot_body)] app_shared))
     = Response 400 (Message ''Server limit reached (maximum 3 servers)'')"
proof -
  have run: "length (filter (\<lambda>r. srv_userId r = ''u2'')
      (servers (create_run [(request_env, Some ''u2'', bot_body),
                       (request_env\<lparr>new_id := ''e''\<rparr>, Some ''u2'', bot_body)] app_shared))) = 3"
    by (simp add: create_handler_def getServersByUserId_def createServerDirectory_def
        createServer_def Let_def app_shared_def row_def bot_body_def request_env_def)
  have d: "dirs app_shared = []" by (simp add: app_shared_def)
  have b: "body_name bot_body = Some ''bot''" "body_status bot_body = Some ''stopped''"
    "body_envVars bot_body = Some []" by (simp_all add: bot_body_def)
  have e: "new_id request_env = ''d''" "db_now request_env = 1001"
    "serversRoot request_env = ''/app/servers''" "dir_now request_env = 1000"
    "dir_random request_env = ''k3j9x0q1z''" "show_nat 1000 = ''1000''"
    by (simp_all add: request_env_def show_nat.simps digit_char_def)
  from
    C8_server_limit[of "Some ''u1''" "''u1''" request_env bot_body app_shared "[]"]
    C8_server_limit[of "Some ''u2''" "''u2''" request_env bot_body app_shared "[]"]
    C8_server_limit[of "Some ''u2''" "''u2''" "request_env\<lparr>new_id := ''f''\<rparr>" bot_body
      "create_run [(request_env, Some ''u2'', bot_body),
                   (request_env\<lparr>new_id := ''e''\<rparr>, Some ''u2'', bot_body)] app_shared" "[]"]
  show ?thesis
    by (simp add: shared_counts run d b e del: create_run.simps)
qed

end
